theory Spec2Isabelle
  imports Complex_Main
begin

section \<open>Python values\<close>

text \<open>
  The program is \<^verbatim>\<open>src/hitthefest/cli.py\<close>. A Python \<^verbatim>\<open>str\<close> is a sequence of Unicode
  code points, so it is a list of naturals here (an Isabelle \<open>char\<close> is a byte and could
  not hold a combining mark). \<open>str_lit\<close> writes a literal of the source.
  A dictionary is a map; \<^verbatim>\<open>d[k]\<close> raises \<^verbatim>\<open>KeyError\<close> on a missing key, which is
  \<open>dict_get\<close>. A dictionary built by a comprehension or by a loop of assignments is
  \<open>dict_of\<close>: later pairs overwrite earlier ones.
\<close>

datatype error = KeyError | IndexError | ValueError

type_synonym codepoint = nat

type_synonym str = "codepoint list"

definition str_lit :: "string \<Rightarrow> str" where
  "str_lit s = map of_char s"

definition dict_get :: "('k \<rightharpoonup> 'v) \<Rightarrow> 'k \<Rightarrow> error + 'v" where
  "dict_get d k = (case d k of None \<Rightarrow> Inl KeyError | Some v \<Rightarrow> Inr v)"

definition dict_of :: "('k \<times> 'v) list \<Rightarrow> ('k \<rightharpoonup> 'v)" where
  "dict_of kvs = foldl (\<lambda>d kv. d(fst kv \<mapsto> snd kv)) Map.empty kvs"

section \<open>The collaborators: library functions and the Spotify client\<close>

text \<open>
  The functions of \<^verbatim>\<open>unicodedata\<close>, \<^verbatim>\<open>str.lower\<close> and \<^verbatim>\<open>numpy.percentile\<close> are not code of
  the program. They are parameters of the model, collected in \<open>libs\<close>; every theorem below
  holds for all of them. \<^verbatim>\<open>numpy.percentile\<close> may raise, so it returns a sum.

  The client object \<^verbatim>\<open>sp\<close> is passed to the functions of the source as an argument, and
  so it is here. Its three methods are functions of their arguments:
  \<^item> \<open>search sp q\<close> is \<^verbatim>\<open>sp.search(q=q, type="artist", limit=1)["artists"]["items"]\<close>,
  \<^item> \<open>artist_top_tracks sp i\<close> is the list of the \<^verbatim>\<open>"id"\<close>s of
    \<^verbatim>\<open>sp.artist_top_tracks(i)["tracks"]\<close>,
  \<^item> \<open>track sp t\<close> is the list of the \<^verbatim>\<open>"name"\<close>s of \<^verbatim>\<open>sp.track(t)["artists"]\<close>.
  Output (\<^verbatim>\<open>click.echo\<close>, \<^verbatim>\<open>print_debug\<close>, \<^verbatim>\<open>tqdm\<close>) and \<^verbatim>\<open>time.sleep\<close> are left out.
\<close>

record libs =
  unicodedata_normalize_NFD :: "str \<Rightarrow> str"
  unicodedata_category :: "codepoint \<Rightarrow> string"
  str_lower :: "str \<Rightarrow> str"
  np_percentile :: "int list \<Rightarrow> int list \<Rightarrow> error + real list"

record artist_item =
  item_name :: str
  item_id :: str
  item_popularity :: int

record spotify =
  search :: "str \<Rightarrow> artist_item list"
  artist_top_tracks :: "str \<Rightarrow> str list"
  track :: "str \<Rightarrow> str list"

section \<open>NameNormalizer\<close>

text \<open>
  \<^verbatim>\<open>''.join(c for c in unicodedata.normalize('NFD', text)
            if unicodedata.category(c) != 'Mn').lower()\<close>
\<close>

definition normalize :: "libs \<Rightarrow> str \<Rightarrow> str" where
  "normalize L text =
     str_lower L
       (concat [[c]. c \<leftarrow> unicodedata_normalize_NFD L text, unicodedata_category L c \<noteq> ''Mn''])"

section \<open>PopularityClassifier\<close>

text \<open>
  \<^verbatim>\<open>p20, p40, p60, p80 = np.percentile(popularities, [20, 40, 60, 80])\<close>: the unpacking
  raises \<^verbatim>\<open>ValueError\<close> unless there are four values.
\<close>

definition get_percentile_thresholds ::
  "libs \<Rightarrow> int list \<Rightarrow> error + (real \<times> real \<times> real \<times> real)" where
  "get_percentile_thresholds L popularities =
     (case np_percentile L popularities [20, 40, 60, 80] of
        Inl e \<Rightarrow> Inl e
      | Inr [p20, p40, p60, p80] \<Rightarrow> Inr (p20, p40, p60, p80)
      | Inr _ \<Rightarrow> Inl ValueError)"

text \<open>
  The score is an \<^verbatim>\<open>int\<close> or \<^verbatim>\<open>None\<close>, the thresholds are the floats of
  \<^verbatim>\<open>np.percentile\<close>; a comparison of an integer with a finite float is the comparison of
  the two numbers.
\<close>

definition songs_count :: "int option \<Rightarrow> real \<Rightarrow> real \<Rightarrow> real \<Rightarrow> real \<Rightarrow> int" where
  "songs_count p p20 p40 p60 p80 =
     (let p = (case p of None \<Rightarrow> 0 | Some v \<Rightarrow> v) in
      if real_of_int p < p20 then 1
      else if real_of_int p < p40 then 2
      else if real_of_int p < p60 then 3
      else if real_of_int p < p80 then 4
      else 5)"

section \<open>Catalog lookups\<close>

definition fetch_artist_popularity :: "spotify \<Rightarrow> str list \<Rightarrow> (str \<rightharpoonup> int option)" where
  "fetch_artist_popularity sp artists =
     foldl (\<lambda>artist_popularity name.
              let items = search sp (str_lit ''artist:'' @ name) in
              artist_popularity(name \<mapsto>
                (case items of [] \<Rightarrow> None | item # _ \<Rightarrow> Some (item_popularity item))))
       Map.empty artists"

definition fetch_artist_top_tracks :: "libs \<Rightarrow> spotify \<Rightarrow> str \<Rightarrow> str list" where
  "fetch_artist_top_tracks L sp artist_name =
     (case search sp (str_lit ''artist:'' @ artist_name) of
        [] \<Rightarrow> []
      | item # _ \<Rightarrow>
          if normalize L (item_name item) \<noteq> normalize L artist_name then []
          else artist_top_tracks sp (item_id item))"

section \<open>TrackAllocator\<close>

text \<open>
  \<open>selection\<close> holds the locals of \<^verbatim>\<open>select_tracks_by_percentile_logic\<close> that are fixed
  before the loops start, \<open>allocation\<close> the ones the loops update. An entry of
  \<^verbatim>\<open>rejected_tracks\<close> is the tuple \<^verbatim>\<open>(track_id, reason, authors, owner)\<close>.
\<close>

type_synonym rejection = "str \<times> str \<times> str list option \<times> str option"

record selection =
  artist_preference :: "str \<rightharpoonup> nat"
  artist_name_map :: "str \<rightharpoonup> str"
  artist_popularity :: "str \<rightharpoonup> int option"
  to_extract :: "str \<rightharpoonup> int"

record allocation =
  seen_tracks :: "str set"
  all_tracks :: "str list"
  artist_to_count :: "str \<rightharpoonup> int"
  debug_tracks_zero :: "str \<rightharpoonup> (str list \<times> rejection list)"

text \<open>Lines 164 and 166: the two dictionaries keyed by normalized name.\<close>

definition make_artist_preference :: "libs \<Rightarrow> str list \<Rightarrow> (str \<rightharpoonup> nat)" where
  "make_artist_preference L artists =
     dict_of (map (\<lambda>(i, name). (normalize L name, i)) (enumerate 0 artists))"

definition make_artist_name_map :: "libs \<Rightarrow> str list \<Rightarrow> (str \<rightharpoonup> str)" where
  "make_artist_name_map L artists = dict_of (map (\<lambda>name. (normalize L name, name)) artists)"

text \<open>Lines 169 to 171: \<^verbatim>\<open>artist_popularity[a] if artist_popularity[a] is not None else 0\<close>.\<close>

fun popularity_values :: "(str \<rightharpoonup> int option) \<Rightarrow> str list \<Rightarrow> error + int list" where
  "popularity_values ap [] = Inr []"
| "popularity_values ap (a # as) =
     (case dict_get ap a of
        Inl e \<Rightarrow> Inl e
      | Inr p \<Rightarrow>
          (case popularity_values ap as of
             Inl e \<Rightarrow> Inl e
           | Inr vs \<Rightarrow> Inr ((case p of None \<Rightarrow> 0 | Some v \<Rightarrow> v) # vs)))"

text \<open>Lines 173 to 175: the comprehension that fills \<^verbatim>\<open>to_extract\<close>, key by key.\<close>

fun make_to_extract ::
  "(str \<rightharpoonup> int option) \<Rightarrow> real \<times> real \<times> real \<times> real \<Rightarrow> str list \<Rightarrow> (str \<rightharpoonup> int)
     \<Rightarrow> error + (str \<rightharpoonup> int)" where
  "make_to_extract ap ps [] d = Inr d"
| "make_to_extract ap ps (a # as) d =
     (case dict_get ap a of
        Inl e \<Rightarrow> Inl e
      | Inr p \<Rightarrow>
          (case ps of (p20, p40, p60, p80) \<Rightarrow>
             make_to_extract ap ps as (d(a \<mapsto> songs_count p p20 p40 p60 p80))))"

text \<open>
  Lines 192 to 198: the first credited name whose normalized form is a key of
  \<^verbatim>\<open>artist_preference\<close> decides; the owner is the entry of \<^verbatim>\<open>artist_name_map\<close> there.
\<close>

fun find_owner :: "libs \<Rightarrow> selection \<Rightarrow> str list \<Rightarrow> error + str option" where
  "find_owner L sel [] = Inr None"
| "find_owner L sel (auth_name # rest) =
     (let norm_auth_name = normalize L auth_name in
      if artist_preference sel norm_auth_name \<noteq> None
      then (case dict_get (artist_name_map sel) norm_auth_name of
              Inl e \<Rightarrow> Inl e
            | Inr name \<Rightarrow> Inr (Some name))
      else find_owner L sel rest)"

text \<open>\<^verbatim>\<open>f"owner is {owner if owner else 'None'}"\<close>: an empty name is falsy too.\<close>

definition owner_reason :: "str option \<Rightarrow> str" where
  "owner_reason owner =
     str_lit ''owner is '' @
       (case owner of None \<Rightarrow> str_lit ''None'' | Some n \<Rightarrow> if n = [] then str_lit ''None'' else n)"

text \<open>
  Lines 185 to 211, the body of the loop over \<^verbatim>\<open>top_tracks\<close> for one \<^verbatim>\<open>track_id\<close>. The
  first component of the result says whether the loop stops (\<^verbatim>\<open>break\<close>); a
  \<^verbatim>\<open>continue\<close> skips the test of line 210.
\<close>

definition examine_track ::
  "libs \<Rightarrow> spotify \<Rightarrow> selection \<Rightarrow> str \<Rightarrow> str \<Rightarrow> allocation \<Rightarrow> rejection list
     \<Rightarrow> error + (bool \<times> allocation \<times> rejection list)" where
  "examine_track L sp sel artist track_id st rejected_tracks =
     (if track_id \<in> seen_tracks st
      then Inr (False, st,
             rejected_tracks @
               [(track_id, str_lit ''already assigned to previous artist'', None, None)])
      else
        let authors = track sp track_id in
        case find_owner L sel authors of
          Inl e \<Rightarrow> Inl e
        | Inr owner \<Rightarrow>
            if owner \<noteq> Some artist
            then Inr (False, st,
                   rejected_tracks @ [(track_id, owner_reason owner, Some authors, owner)])
            else
              (case dict_get (artist_to_count st) artist of
                 Inl e \<Rightarrow> Inl e
               | Inr c \<Rightarrow>
                   (case dict_get (to_extract sel) artist of
                      Inl e \<Rightarrow> Inl e
                    | Inr n \<Rightarrow>
                        let st' =
                              (if c < n
                               then st\<lparr>all_tracks := all_tracks st @ [track_id],
                                       seen_tracks := insert track_id (seen_tracks st),
                                       artist_to_count := (artist_to_count st)(artist \<mapsto> c + 1)\<rparr>
                               else st);
                            rejected' =
                              (if c < n then rejected_tracks
                               else rejected_tracks @
                                      [(track_id, str_lit ''limit reached for artist'',
                                        Some authors, owner)])
                        in
                        (case dict_get (artist_to_count st') artist of
                           Inl e \<Rightarrow> Inl e
                         | Inr c' \<Rightarrow> Inr (n \<le> c', st', rejected')))))"

text \<open>Lines 184 to 211: the loop over the candidate tracks of one artist.\<close>

fun scan_tracks ::
  "libs \<Rightarrow> spotify \<Rightarrow> selection \<Rightarrow> str \<Rightarrow> str list \<Rightarrow> allocation \<Rightarrow> rejection list
     \<Rightarrow> error + (allocation \<times> rejection list)" where
  "scan_tracks L sp sel artist [] st rejected_tracks = Inr (st, rejected_tracks)"
| "scan_tracks L sp sel artist (track_id # rest) st rejected_tracks =
     (case examine_track L sp sel artist track_id st rejected_tracks of
        Inl e \<Rightarrow> Inl e
      | Inr (stop, st', rejected') \<Rightarrow>
          if stop then Inr (st', rejected')
          else scan_tracks L sp sel artist rest st' rejected')"

text \<open>
  Lines 182 to 216, the body of the loop over \<^verbatim>\<open>artists\<close>. It returns the allocation
  and the value of the local \<^verbatim>\<open>rejected_tracks\<close> at the end of the iteration.
\<close>

definition process_artist ::
  "libs \<Rightarrow> spotify \<Rightarrow> selection \<Rightarrow> bool \<Rightarrow> str \<Rightarrow> allocation
     \<Rightarrow> error + (allocation \<times> rejection list)" where
  "process_artist L sp sel debug artist st =
     (let top_tracks = fetch_artist_top_tracks L sp artist in
      case scan_tracks L sp sel artist top_tracks st [] of
        Inl e \<Rightarrow> Inl e
      | Inr (st', rejected_tracks) \<Rightarrow>
          (case dict_get (artist_to_count st') artist of
             Inl e \<Rightarrow> Inl e
           | Inr c \<Rightarrow>
               Inr (if c = 0 \<and> debug
                    then st'\<lparr>debug_tracks_zero :=
                               (debug_tracks_zero st')(artist \<mapsto> (top_tracks, rejected_tracks))\<rparr>
                    else st',
                    rejected_tracks)))"

fun process_artists ::
  "libs \<Rightarrow> spotify \<Rightarrow> selection \<Rightarrow> bool \<Rightarrow> str list \<Rightarrow> allocation \<Rightarrow> error + allocation" where
  "process_artists L sp sel debug [] st = Inr st"
| "process_artists L sp sel debug (artist # rest) st =
     (case process_artist L sp sel debug artist st of
        Inl e \<Rightarrow> Inl e
      | Inr (st', rejected_tracks) \<Rightarrow> process_artists L sp sel debug rest st')"

text \<open>Lines 176 to 179.\<close>

definition initial_allocation :: "str list \<Rightarrow> allocation" where
  "initial_allocation artists =
     \<lparr>seen_tracks = {}, all_tracks = [],
      artist_to_count = dict_of (map (\<lambda>a. (a, 0)) artists),
      debug_tracks_zero = Map.empty\<rparr>"

text \<open>Lines 164 to 175: the locals computed before the loops.\<close>

definition make_selection :: "libs \<Rightarrow> spotify \<Rightarrow> str list \<Rightarrow> error + selection" where
  "make_selection L sp artists =
     (let ap = fetch_artist_popularity sp artists in
      case popularity_values ap artists of
        Inl e \<Rightarrow> Inl e
      | Inr values \<Rightarrow>
          (case get_percentile_thresholds L values of
             Inl e \<Rightarrow> Inl e
           | Inr ps \<Rightarrow>
               (case make_to_extract ap ps artists Map.empty of
                  Inl e \<Rightarrow> Inl e
                | Inr te \<Rightarrow>
                    Inr \<lparr>artist_preference = make_artist_preference L artists,
                         artist_name_map = make_artist_name_map L artists,
                         artist_popularity = ap,
                         to_extract = te\<rparr>)))"

text \<open>
  The locals of \<^verbatim>\<open>select_tracks_by_percentile_logic\<close> when it reaches its
  \<^verbatim>\<open>return\<close>, and the triple it returns.
\<close>

definition select_tracks_locals ::
  "libs \<Rightarrow> spotify \<Rightarrow> str list \<Rightarrow> bool \<Rightarrow> error + (selection \<times> allocation)" where
  "select_tracks_locals L sp artists debug =
     (case make_selection L sp artists of
        Inl e \<Rightarrow> Inl e
      | Inr sel \<Rightarrow>
          (case process_artists L sp sel debug artists (initial_allocation artists) of
             Inl e \<Rightarrow> Inl e
           | Inr st \<Rightarrow> Inr (sel, st)))"

definition select_tracks_by_percentile_logic ::
  "libs \<Rightarrow> spotify \<Rightarrow> str list \<Rightarrow> bool
     \<Rightarrow> error + (str list \<times> (str \<rightharpoonup> int option) \<times> (str \<rightharpoonup> int))" where
  "select_tracks_by_percentile_logic L sp artists debug =
     (case select_tracks_locals L sp artists debug of
        Inl e \<Rightarrow> Inl e
      | Inr (sel, st) \<Rightarrow> Inr (all_tracks st, artist_popularity sel, to_extract sel))"

section \<open>The interpolated percentile\<close>

text \<open>
  The percentile the specification asks for, written from its words and not from any
  code: the data are sorted; the percentage \<open>q\<close> has the rank \<open>h = (n - 1) * q / 100\<close>
  among the \<open>n\<close> values, counted from 0; the percentile is the value at the rank below
  \<open>h\<close>, moved towards the next value by the fraction of \<open>h\<close>.
\<close>

definition reference_percentile :: "int list \<Rightarrow> int \<Rightarrow> real" where
  "reference_percentile xs q =
     (let s = sort xs;
          n = length s;
          h = real (n - 1) * real_of_int q / 100;
          k = nat \<lfloor>h\<rfloor>
      in if k + 1 < n
         then real_of_int (s ! k)
              + (h - real k) * (real_of_int (s ! (k + 1)) - real_of_int (s ! k))
         else real_of_int (s ! k))"

section \<open>Concrete collaborators for the examples\<close>

text \<open>
  The theorems below hold for every \<open>libs\<close> and every \<open>spotify\<close>. Their examples run
  the model on the values defined here.

  \<open>sample_libs\<close> is an excerpt of the libraries: the canonical decompositions of
  U+00C4, U+00E4 and U+00EF, the general categories of U+0308, the ASCII letters, the
  digits and the space (code points outside the excerpt do not occur in the examples),
  lowercasing of ASCII letters, and the default (linear) method of
  \<^verbatim>\<open>numpy.percentile\<close> in exact arithmetic: for the sorted data \<open>s\<close> of length \<open>n\<close>
  and a percentage \<open>q\<close> the value at the position \<open>(n - 1) * q / 100\<close>, interpolated
  between the two neighbours; \<^verbatim>\<open>ValueError\<close> for a percentage outside 0 to 100, and
  \<^verbatim>\<open>IndexError\<close> for empty data, as numpy raises it.
\<close>

definition sample_NFD :: "str \<Rightarrow> str" where
  "sample_NFD text =
     concat (map (\<lambda>c. if c = 0xC4 then [0x41, 0x308]
                       else if c = 0xE4 then [0x61, 0x308]
                       else if c = 0xEF then [0x69, 0x308]
                       else [c]) text)"

definition sample_category :: "codepoint \<Rightarrow> string" where
  "sample_category c =
     (if c = 0x308 then ''Mn''
      else if 0x41 \<le> c \<and> c \<le> 0x5A then ''Lu''
      else if 0x61 \<le> c \<and> c \<le> 0x7A then ''Ll''
      else if 0x30 \<le> c \<and> c \<le> 0x39 then ''Nd''
      else if c = 0x20 then ''Zs''
      else ''Cn'')"

definition ascii_lower :: "str \<Rightarrow> str" where
  "ascii_lower text = map (\<lambda>c. if 0x41 \<le> c \<and> c \<le> 0x5A then c + 0x20 else c) text"

definition linear_percentile :: "int list \<Rightarrow> int list \<Rightarrow> error + real list" where
  "linear_percentile a q =
     (if \<exists>x \<in> set q. x < 0 \<or> 100 < x then Inl ValueError
      else if a = [] then Inl IndexError
      else Inr (map (\<lambda>x.
              let s = sort a;
                  n = length s;
                  pos = (n - 1) * nat x;
                  lo = pos div 100;
                  hi = min (lo + 1) (n - 1);
                  g = real (pos mod 100) / 100
              in real_of_int (s ! lo) + g * (real_of_int (s ! hi) - real_of_int (s ! lo))) q))"

definition sample_libs :: libs where
  "sample_libs =
     \<lparr>unicodedata_normalize_NFD = sample_NFD,
      unicodedata_category = sample_category,
      str_lower = ascii_lower,
      np_percentile = linear_percentile\<rparr>"

text \<open>
  A catalog with two artists. \<open>A\<close> has popularity 10 and the top track \<open>t1\<close>; \<open>B\<close> has
  popularity 90 and the top tracks \<open>t1\<close>, \<open>t0\<close>, \<open>t2\<close>, \<open>t3\<close>. \<open>t1\<close> is credited to
  \<open>A\<close> and \<open>B\<close>, \<open>t0\<close> to \<open>X\<close>, \<open>t2\<close> to \<open>B\<close>, \<open>t3\<close> to \<open>B\<close> and \<open>A\<close>.
\<close>

definition duo_sp :: spotify where
  "duo_sp =
     \<lparr>search = (\<lambda>q.
        if q = str_lit ''artist:A''
        then [\<lparr>item_name = str_lit ''A'', item_id = str_lit ''ia'', item_popularity = 10\<rparr>]
        else if q = str_lit ''artist:B''
        then [\<lparr>item_name = str_lit ''B'', item_id = str_lit ''ib'', item_popularity = 90\<rparr>]
        else []),
      artist_top_tracks = (\<lambda>i.
        if i = str_lit ''ia'' then [str_lit ''t1'']
        else if i = str_lit ''ib''
        then [str_lit ''t1'', str_lit ''t0'', str_lit ''t2'', str_lit ''t3'']
        else []),
      track = (\<lambda>t.
        if t = str_lit ''t1'' then [str_lit ''A'', str_lit ''B'']
        else if t = str_lit ''t0'' then [str_lit ''X'']
        else if t = str_lit ''t2'' then [str_lit ''B'']
        else if t = str_lit ''t3'' then [str_lit ''B'', str_lit ''A'']
        else [])\<rparr>"

text \<open>
  A catalog with one artist \<open>A\<close> of popularity 50 whose six top tracks are credited to
  \<open>A\<close> alone; it is run on a lineup that names \<open>A\<close> twice.
\<close>

definition solo_sp :: spotify where
  "solo_sp =
     \<lparr>search = (\<lambda>q.
        if q = str_lit ''artist:A''
        then [\<lparr>item_name = str_lit ''A'', item_id = str_lit ''ia'', item_popularity = 50\<rparr>]
        else []),
      artist_top_tracks = (\<lambda>i.
        if i = str_lit ''ia''
        then [str_lit ''t1'', str_lit ''t2'', str_lit ''t3'', str_lit ''t4'', str_lit ''t5'',
              str_lit ''t6'']
        else []),
      track = (\<lambda>t. [str_lit ''A''])\<rparr>"

text \<open>
  A catalog with two artists whose names differ in case only, \<open>ABBA\<close> and \<open>Abba\<close>, both
  of popularity 50, both with the top track \<open>t1\<close>, which is credited to \<open>ABBA\<close> and to
  \<open>Abba\<close>.
\<close>

definition twin_sp :: spotify where
  "twin_sp =
     \<lparr>search = (\<lambda>q.
        if q = str_lit ''artist:ABBA''
        then [\<lparr>item_name = str_lit ''ABBA'', item_id = str_lit ''i1'', item_popularity = 50\<rparr>]
        else if q = str_lit ''artist:Abba''
        then [\<lparr>item_name = str_lit ''Abba'', item_id = str_lit ''i2'', item_popularity = 50\<rparr>]
        else []),
      artist_top_tracks = (\<lambda>i.
        if i = str_lit ''i1'' \<or> i = str_lit ''i2'' then [str_lit ''t1''] else []),
      track = (\<lambda>t. if t = str_lit ''t1'' then [str_lit ''ABBA'', str_lit ''Abba''] else [])\<rparr>"

section \<open>Auxiliary facts\<close>

subsection \<open>Dictionaries\<close>

lemma dict_of_snoc: "dict_of (kvs @ [kv]) = (dict_of kvs)(fst kv \<mapsto> snd kv)"
  by (simp add: dict_of_def)

lemma dict_of_Nil: "dict_of [] = Map.empty"
  by (simp add: dict_of_def)

lemma dict_of_map_of: "dict_of kvs = map_of (rev kvs)"
  by (induction kvs rule: rev_induct) (auto simp: dict_of_snoc dict_of_Nil)

lemma dom_dict_of: "dom (dict_of kvs) = fst ` set kvs"
  by (simp add: dict_of_map_of dom_map_of_conv_image_fst)

lemma dict_of_SomeD: "dict_of kvs k = Some v \<Longrightarrow> (k, v) \<in> set kvs"
  by (auto simp: dict_of_map_of dest: map_of_SomeD)

subsection \<open>One candidate\<close>

lemma examine_track_cases:
  assumes "examine_track L sp sel artist t st rej = Inr (stop, st', rej')"
  obtains
    (seen) "t \<in> seen_tracks st" "st' = st" "\<not> stop"
      "rej' = rej @ [(t, str_lit ''already assigned to previous artist'', None, None)]"
  | (foreign) owner where "t \<notin> seen_tracks st" "find_owner L sel (track sp t) = Inr owner"
      "owner \<noteq> Some artist" "st' = st" "\<not> stop"
      "rej' = rej @ [(t, owner_reason owner, Some (track sp t), owner)]"
  | (accept) c n where "t \<notin> seen_tracks st"
      "find_owner L sel (track sp t) = Inr (Some artist)"
      "artist_to_count st artist = Some c" "to_extract sel artist = Some n" "c < n"
      "st' = st\<lparr>all_tracks := all_tracks st @ [t],
                seen_tracks := insert t (seen_tracks st),
                artist_to_count := (artist_to_count st)(artist \<mapsto> c + 1)\<rparr>"
      "rej' = rej" "stop \<longleftrightarrow> n \<le> c + 1"
  | (limit) c n where "t \<notin> seen_tracks st"
      "find_owner L sel (track sp t) = Inr (Some artist)"
      "artist_to_count st artist = Some c" "to_extract sel artist = Some n" "\<not> c < n"
      "st' = st" "stop"
      "rej' = rej @ [(t, str_lit ''limit reached for artist'', Some (track sp t),
                      Some artist)]"
proof (cases "t \<in> seen_tracks st")
  case True
  with assms show ?thesis
    by (intro seen) (auto simp: examine_track_def)
next
  case unseen: False
  then obtain owner where ow: "find_owner L sel (track sp t) = Inr owner"
    using assms by (auto simp: examine_track_def Let_def split: sum.splits)
  show ?thesis
  proof (cases "owner = Some artist")
    case False
    with assms unseen ow show ?thesis
      by (intro foreign[of owner]) (auto simp: examine_track_def Let_def)
  next
    case True
    with assms unseen ow obtain c n where
      cn: "artist_to_count st artist = Some c" "to_extract sel artist = Some n"
      by (auto simp: examine_track_def Let_def dict_get_def split: sum.splits option.splits)
    show ?thesis
    proof (cases "c < n")
      case True
      with assms unseen ow \<open>owner = Some artist\<close> cn show ?thesis
        by (intro accept[of c n]) (auto simp: examine_track_def Let_def dict_get_def)
    next
      case False
      with assms unseen ow \<open>owner = Some artist\<close> cn show ?thesis
        by (intro limit[of c n]) (auto simp: examine_track_def Let_def dict_get_def)
    qed
  qed
qed

subsection \<open>The loops\<close>

lemma scan_tracks_rule:
  assumes "scan_tracks L sp sel a ts st rej = Inr (st', rej')"
    and "P st rej"
    and "\<And>t st rej stop st1 rej1. t \<in> set ts \<Longrightarrow> P st rej \<Longrightarrow>
           examine_track L sp sel a t st rej = Inr (stop, st1, rej1) \<Longrightarrow>
           (if stop then Q st1 rej1 else P st1 rej1)"
    and "\<And>st rej. P st rej \<Longrightarrow> Q st rej"
  shows "Q st' rej'"
  using assms
proof (induction ts arbitrary: st rej)
  case Nil
  then show ?case by simp
next
  case (Cons t ts)
  from Cons.prems(1) obtain stop st1 rej1 where
    ex: "examine_track L sp sel a t st rej = Inr (stop, st1, rej1)"
    by (auto split: sum.splits)
  have step: "if stop then Q st1 rej1 else P st1 rej1"
    using Cons.prems(3)[OF _ Cons.prems(2) ex] by simp
  show ?case
  proof (cases stop)
    case True
    with Cons.prems(1) ex step show ?thesis by simp
  next
    case False
    with Cons.prems(1) ex have "scan_tracks L sp sel a ts st1 rej1 = Inr (st', rej')"
      by simp
    moreover from False step have "P st1 rej1" by simp
    moreover have "if stop then Q st2 rej2 else P st2 rej2"
      if "u \<in> set ts" "P st0 rej0"
        "examine_track L sp sel a u st0 rej0 = Inr (stop, st2, rej2)"
      for u st0 rej0 stop st2 rej2
      using Cons.prems(3)[of u st0 rej0 stop st2 rej2] that by simp
    ultimately show ?thesis
      using Cons.prems(4) by (rule Cons.IH)
  qed
qed

lemma process_artist_scan:
  assumes "process_artist L sp sel debug a st = Inr (st', rej)"
  obtains st1 where
    "scan_tracks L sp sel a (fetch_artist_top_tracks L sp a) st [] = Inr (st1, rej)"
    "seen_tracks st' = seen_tracks st1" "all_tracks st' = all_tracks st1"
    "artist_to_count st' = artist_to_count st1"
    "artist_to_count st1 a \<noteq> None"
  using assms
  by (auto simp: process_artist_def Let_def dict_get_def
      split: sum.splits option.splits if_splits)

text \<open>
  An invariant of the three fields the allocation is made of: kept by every candidate,
  it holds after the whole pass.
\<close>

lemma process_artist_rule:
  assumes "process_artist L sp sel debug a st = Inr (st', rej)"
    and "P (seen_tracks st) (all_tracks st) (artist_to_count st)"
    and "\<And>t st rej stop st1 rej1.
           P (seen_tracks st) (all_tracks st) (artist_to_count st) \<Longrightarrow>
           examine_track L sp sel a t st rej = Inr (stop, st1, rej1) \<Longrightarrow>
           P (seen_tracks st1) (all_tracks st1) (artist_to_count st1)"
  shows "P (seen_tracks st') (all_tracks st') (artist_to_count st')"
proof -
  from assms(1) obtain st1 where
    scan: "scan_tracks L sp sel a (fetch_artist_top_tracks L sp a) st [] = Inr (st1, rej)"
    and eq: "seen_tracks st' = seen_tracks st1" "all_tracks st' = all_tracks st1"
      "artist_to_count st' = artist_to_count st1"
    by (rule process_artist_scan)
  have "P (seen_tracks st1) (all_tracks st1) (artist_to_count st1)"
    by (rule scan_tracks_rule[OF scan,
          where P = "\<lambda>st rej. P (seen_tracks st) (all_tracks st) (artist_to_count st)"
            and Q = "\<lambda>st rej. P (seen_tracks st) (all_tracks st) (artist_to_count st)"])
       (use assms(2,3) in \<open>auto split: if_splits\<close>)
  with eq show ?thesis by simp
qed

lemma process_artists_rule:
  assumes "process_artists L sp sel debug as st = Inr st'"
    and "P (seen_tracks st) (all_tracks st) (artist_to_count st)"
    and "\<And>a t st rej stop st1 rej1. a \<in> set as \<Longrightarrow>
           P (seen_tracks st) (all_tracks st) (artist_to_count st) \<Longrightarrow>
           examine_track L sp sel a t st rej = Inr (stop, st1, rej1) \<Longrightarrow>
           P (seen_tracks st1) (all_tracks st1) (artist_to_count st1)"
  shows "P (seen_tracks st') (all_tracks st') (artist_to_count st')"
  using assms
proof (induction as arbitrary: st)
  case Nil
  then show ?case by simp
next
  case (Cons a as)
  from Cons.prems(1) obtain st1 rej where
    pa: "process_artist L sp sel debug a st = Inr (st1, rej)"
    and rest: "process_artists L sp sel debug as st1 = Inr st'"
    by (auto split: sum.splits)
  have "P (seen_tracks st1) (all_tracks st1) (artist_to_count st1)"
    by (rule process_artist_rule[where P = P, OF pa Cons.prems(2)])
       (use Cons.prems(3)[of a] in simp)
  moreover have "P (seen_tracks st3) (all_tracks st3) (artist_to_count st3)"
    if "b \<in> set as" "P (seen_tracks st2) (all_tracks st2) (artist_to_count st2)"
      "examine_track L sp sel b t st2 rej2 = Inr (stop, st3, rej3)"
    for b t st2 rej2 stop st3 rej3
    using Cons.prems(3)[of b st2 t rej2 stop st3 rej3] that by simp
  ultimately show ?case
    by (rule Cons.IH[OF rest])
qed

subsection \<open>What the pass keeps\<close>

lemma process_artists_distinct:
  assumes "process_artists L sp sel debug as st = Inr st'"
    and "seen_tracks st = set (all_tracks st)" and "distinct (all_tracks st)"
  shows "seen_tracks st' = set (all_tracks st') \<and> distinct (all_tracks st')"
  by (rule process_artists_rule[OF assms(1),
        where P = "\<lambda>seen tracks counts. seen = set tracks \<and> distinct tracks"])
     (use assms(2,3) in \<open>auto elim!: examine_track_cases\<close>)

lemma process_artists_owned:
  assumes "process_artists L sp sel debug as st = Inr st'"
    and "\<forall>t \<in> set (all_tracks st). \<exists>a \<in> A. find_owner L sel (track sp t) = Inr (Some a)"
    and "set as \<subseteq> A"
  shows "\<forall>t \<in> set (all_tracks st'). \<exists>a \<in> A. find_owner L sel (track sp t) = Inr (Some a)"
  by (rule process_artists_rule[OF assms(1),
        where P = "\<lambda>seen tracks counts.
          \<forall>t \<in> set tracks. \<exists>a \<in> A. find_owner L sel (track sp t) = Inr (Some a)"])
     (use assms(2) assms(3)[THEN subsetD] in \<open>auto elim!: examine_track_cases\<close>)

lemma process_artists_quota:
  assumes "process_artists L sp sel debug as st = Inr st'"
    and "\<forall>a c n. artist_to_count st a = Some c \<longrightarrow> to_extract sel a = Some n \<longrightarrow> c \<le> n"
  shows "\<forall>a c n. artist_to_count st' a = Some c \<longrightarrow> to_extract sel a = Some n \<longrightarrow> c \<le> n"
  by (rule process_artists_rule[OF assms(1),
        where P = "\<lambda>seen tracks counts.
          \<forall>a c n. counts a = Some c \<longrightarrow> to_extract sel a = Some n \<longrightarrow> c \<le> n"])
     (use assms(2) in \<open>auto elim!: examine_track_cases split: if_splits\<close>)

lemma process_artists_counts:
  assumes "process_artists L sp sel debug as st = Inr st'"
    and "\<forall>a c. artist_to_count st a = Some c \<longrightarrow>
           c = int (length (filter (\<lambda>t. find_owner L sel (track sp t) = Inr (Some a))
                 (all_tracks st)))"
  shows "\<forall>a c. artist_to_count st' a = Some c \<longrightarrow>
           c = int (length (filter (\<lambda>t. find_owner L sel (track sp t) = Inr (Some a))
                 (all_tracks st')))"
  by (rule process_artists_rule[OF assms(1),
        where P = "\<lambda>seen tracks counts.
          \<forall>a c. counts a = Some c \<longrightarrow>
            c = int (length (filter (\<lambda>t. find_owner L sel (track sp t) = Inr (Some a))
                  tracks))"])
     (use assms(2) in \<open>auto elim!: examine_track_cases split: if_splits\<close>)

lemma examine_track_dom:
  assumes "examine_track L sp sel a t st rej = Inr (stop, st', rej')"
  shows "dom (artist_to_count st') = dom (artist_to_count st)"
  using assms by (rule examine_track_cases) (simp_all add: insert_absorb domI)

lemma process_artists_dom:
  assumes "process_artists L sp sel debug as st = Inr st'"
  shows "dom (artist_to_count st') = dom (artist_to_count st)"
  by (rule process_artists_rule[OF assms,
        where P = "\<lambda>seen tracks counts. dom counts = dom (artist_to_count st)"])
     (simp_all add: examine_track_dom)

subsection \<open>The locals computed before the loops\<close>

lemma songs_count_range: "1 \<le> songs_count p p20 p40 p60 p80 \<and> songs_count p p20 p40 p60 p80 \<le> 5"
  by (simp add: songs_count_def Let_def)

lemma make_to_extract_range:
  assumes "make_to_extract ap ps as d = Inr te"
    and "\<forall>a n. d a = Some n \<longrightarrow> 1 \<le> n \<and> n \<le> 5"
  shows "\<forall>a n. te a = Some n \<longrightarrow> 1 \<le> n \<and> n \<le> 5"
  using assms
proof (induction as arbitrary: d)
  case Nil
  then show ?case by simp
next
  case (Cons a as)
  obtain p20 p40 p60 p80 where ps: "ps = (p20, p40, p60, p80)"
    by (cases ps) auto
  from Cons.prems(1) obtain p where
    rest: "make_to_extract ap ps as (d(a \<mapsto> songs_count p p20 p40 p60 p80)) = Inr te"
    by (auto simp: ps split: sum.splits)
  show ?case
    by (rule Cons.IH[OF rest]) (use Cons.prems(2) songs_count_range in auto)
qed

lemma make_to_extract_dom:
  assumes "make_to_extract ap ps as d = Inr te"
  shows "dom te = dom d \<union> set as"
  using assms
  by (induction as arbitrary: d) (auto split: sum.splits prod.splits)

lemma make_selection_fields:
  assumes "make_selection L sp artists = Inr sel"
  shows "artist_preference sel = make_artist_preference L artists"
    and "artist_name_map sel = make_artist_name_map L artists"
    and "artist_popularity sel = fetch_artist_popularity sp artists"
    and "dom (to_extract sel) = set artists"
    and "\<forall>a n. to_extract sel a = Some n \<longrightarrow> 1 \<le> n \<and> n \<le> 5"
proof -
  from assms obtain ps te where
    te: "make_to_extract (fetch_artist_popularity sp artists) ps artists Map.empty = Inr te"
    and sel: "sel = \<lparr>artist_preference = make_artist_preference L artists,
                     artist_name_map = make_artist_name_map L artists,
                     artist_popularity = fetch_artist_popularity sp artists,
                     to_extract = te\<rparr>"
    by (auto simp: make_selection_def Let_def split: sum.splits)
  show "artist_preference sel = make_artist_preference L artists"
    and "artist_name_map sel = make_artist_name_map L artists"
    and "artist_popularity sel = fetch_artist_popularity sp artists"
    by (simp_all add: sel)
  show "dom (to_extract sel) = set artists"
    using make_to_extract_dom[OF te] by (simp add: sel)
  show "\<forall>a n. to_extract sel a = Some n \<longrightarrow> 1 \<le> n \<and> n \<le> 5"
    using make_to_extract_range[OF te] by (simp add: sel)
qed

lemma initial_allocation_fields:
  "seen_tracks (initial_allocation artists) = {}"
  "all_tracks (initial_allocation artists) = []"
  "artist_to_count (initial_allocation artists) a = (if a \<in> set artists then Some 0 else None)"
proof -
  have "dom (dict_of (map (\<lambda>a. (a, 0::int)) artists)) = set artists"
    by (simp add: dom_dict_of image_image)
  moreover have "c = 0" if "dict_of (map (\<lambda>a. (a, 0::int)) artists) a = Some c" for c
    using dict_of_SomeD[OF that] by auto
  ultimately show
    "artist_to_count (initial_allocation artists) a = (if a \<in> set artists then Some 0 else None)"
    by (auto simp: initial_allocation_def dom_def set_eq_iff)
qed (simp_all add: initial_allocation_def)

lemma select_tracks_locals_Inr:
  "select_tracks_locals L sp artists debug = Inr (sel, st) \<longleftrightarrow>
     make_selection L sp artists = Inr sel \<and>
     process_artists L sp sel debug artists (initial_allocation artists) = Inr st"
  by (auto simp: select_tracks_locals_def split: sum.splits)

lemma select_tracks_Inr:
  "select_tracks_by_percentile_logic L sp artists debug = Inr (tracks, ap, te) \<longleftrightarrow>
     (\<exists>sel st. select_tracks_locals L sp artists debug = Inr (sel, st) \<and>
        tracks = all_tracks st \<and> ap = artist_popularity sel \<and> te = to_extract sel)"
  by (auto simp: select_tracks_by_percentile_logic_def split: sum.splits)

subsection \<open>The owner of a track\<close>

lemma make_artist_preference_dom:
  "make_artist_preference L artists k \<noteq> None \<longleftrightarrow> k \<in> normalize L ` set artists"
proof -
  have "fst ` (\<lambda>(i, name). (normalize L name, i)) ` set (enumerate 0 artists)
          = normalize L ` snd ` set (enumerate 0 artists)"
    by (auto simp: image_iff split: prod.splits) force+
  also have "snd ` set (enumerate 0 artists) = set artists"
    by (metis list.set_map map_snd_enumerate)
  finally have "dom (make_artist_preference L artists) = normalize L ` set artists"
    by (simp add: make_artist_preference_def dom_dict_of)
  then show ?thesis by (auto simp: dom_def set_eq_iff)
qed

lemma dict_of_keyed_last:
  "dict_of (map (\<lambda>x. (f x, x)) xs) k =
     (if k \<in> f ` set xs then Some (last (filter (\<lambda>x. f x = k) xs)) else None)"
  by (induction xs rule: rev_induct) (auto simp: dict_of_snoc dict_of_Nil)

lemma make_artist_name_map_last:
  "make_artist_name_map L artists k =
     (if k \<in> normalize L ` set artists
      then Some (last (filter (\<lambda>a. normalize L a = k) artists)) else None)"
  by (simp add: make_artist_name_map_def dict_of_keyed_last)

lemma find_owner_first_credit:
  assumes "artist_preference sel = make_artist_preference L artists"
    and "artist_name_map sel = make_artist_name_map L artists"
  shows "find_owner L sel authors =
     Inr (case List.find (\<lambda>n. normalize L n \<in> normalize L ` set artists) authors of
            None \<Rightarrow> None
          | Some n \<Rightarrow> Some (last (filter (\<lambda>a. normalize L a = normalize L n) artists)))"
proof (induction authors)
  case Nil
  then show ?case by simp
next
  case (Cons n authors)
  show ?case
  proof (cases "normalize L n \<in> normalize L ` set artists")
    case True
    then show ?thesis
      using make_artist_preference_dom[of L artists "normalize L n"]
      by (simp add: assms Let_def dict_get_def make_artist_name_map_last)
  next
    case False
    then show ?thesis
      using make_artist_preference_dom[of L artists "normalize L n"] Cons.IH
      by (simp add: assms Let_def)
  qed
qed

lemma last_filter_in:
  assumes "k \<in> f ` set xs"
  shows "last (filter (\<lambda>x. f x = k) xs) \<in> set xs \<and> f (last (filter (\<lambda>x. f x = k) xs)) = k"
proof -
  from assms have ne: "filter (\<lambda>x. f x = k) xs \<noteq> []"
    by (auto simp: filter_empty_conv)
  then have "last (filter (\<lambda>x. f x = k) xs) \<in> set (filter (\<lambda>x. f x = k) xs)"
    by (rule last_in_set)
  then show ?thesis by simp
qed

lemma scan_tracks_grows:
  assumes "scan_tracks L sp sel a ts st rej = Inr (st', rej')"
  shows "seen_tracks st \<subseteq> seen_tracks st'"
  by (rule scan_tracks_rule[OF assms,
        where P = "\<lambda>s r. seen_tracks st \<subseteq> seen_tracks s"
          and Q = "\<lambda>s r. seen_tracks st \<subseteq> seen_tracks s"])
     (auto elim!: examine_track_cases)

subsection \<open>The quota is not reached before the scan stops\<close>

lemma owner_reason_not_limit: "owner_reason owner \<noteq> str_lit ''limit reached for artist''"
  by (simp add: owner_reason_def str_lit_def)

lemma process_artists_other_count:
  assumes "process_artists L sp sel debug as st = Inr st'" and "a \<notin> set as"
  shows "artist_to_count st' a = artist_to_count st a"
  by (rule process_artists_rule[OF assms(1),
        where P = "\<lambda>seen tracks counts. counts a = artist_to_count st a"])
     (use assms(2) in \<open>auto elim!: examine_track_cases\<close>)

lemma scan_tracks_below_quota:
  assumes "scan_tracks L sp sel a ts st rej = Inr (st', rej')"
    and "artist_to_count st a = Some c" and "to_extract sel a = Some n" and "c < n"
    and "\<forall>r \<in> set rej. fst (snd r) \<noteq> str_lit ''limit reached for artist''"
  shows "\<forall>r \<in> set rej'. fst (snd r) \<noteq> str_lit ''limit reached for artist''"
proof (rule scan_tracks_rule[OF assms(1),
      where P = "\<lambda>s r. (\<exists>c. artist_to_count s a = Some c \<and> c < n)
                   \<and> (\<forall>x \<in> set r. fst (snd x) \<noteq> str_lit ''limit reached for artist'')"
        and Q = "\<lambda>s r. \<forall>x \<in> set r. fst (snd x) \<noteq> str_lit ''limit reached for artist''"])
  show "(\<exists>c. artist_to_count st a = Some c \<and> c < n)
      \<and> (\<forall>x \<in> set rej. fst (snd x) \<noteq> str_lit ''limit reached for artist'')"
    using assms(2,4,5) by simp
next
  fix t s r stop s1 r1
  assume inv: "(\<exists>c. artist_to_count s a = Some c \<and> c < n)
      \<and> (\<forall>x \<in> set r. fst (snd x) \<noteq> str_lit ''limit reached for artist'')"
    and ex: "examine_track L sp sel a t s r = Inr (stop, s1, r1)"
  from ex show "if stop
      then \<forall>x \<in> set r1. fst (snd x) \<noteq> str_lit ''limit reached for artist''
      else (\<exists>c. artist_to_count s1 a = Some c \<and> c < n)
         \<and> (\<forall>x \<in> set r1. fst (snd x) \<noteq> str_lit ''limit reached for artist'')"
  proof (cases rule: examine_track_cases)
    case seen
    with inv show ?thesis by (simp add: str_lit_def)
  next
    case (foreign owner)
    with inv show ?thesis by (simp add: owner_reason_not_limit)
  next
    case (accept c' n')
    with inv assms(3) show ?thesis by auto
  next
    case (limit c' n')
    with inv assms(3) show ?thesis by auto
  qed
qed simp

subsection \<open>The owner and the order of the artists\<close>

lemma filter_key_le_one:
  assumes "distinct (map f xs)"
  shows "length (filter (\<lambda>x. f x = k) xs) \<le> 1"
  using assms
proof (induction xs)
  case Nil
  then show ?case by simp
next
  case (Cons a xs)
  show ?case
  proof (cases "f a = k")
    case True
    with Cons.prems have "\<forall>x \<in> set xs. f x \<noteq> k"
      by (metis distinct.simps(2) image_eqI list.simps(9) set_map)
    then have "filter (\<lambda>x. f x = k) xs = []"
      by (simp add: filter_empty_conv)
    with True show ?thesis by simp
  next
    case False
    with Cons show ?thesis by simp
  qed
qed

lemma find_owner_rev_artists:
  assumes "distinct (map (normalize L) artists)"
    and "make_selection L sp artists = Inr sel"
    and "make_selection L sp (rev artists) = Inr sel'"
  shows "find_owner L sel' authors = find_owner L sel authors"
proof -
  have same: "last (filter (\<lambda>a. normalize L a = k) (rev artists))
      = last (filter (\<lambda>a. normalize L a = k) artists)" for k
  proof -
    from assms(1) have "length (filter (\<lambda>a. normalize L a = k) artists) \<le> 1"
      by (rule filter_key_le_one)
    then have "rev (filter (\<lambda>a. normalize L a = k) artists)
        = filter (\<lambda>a. normalize L a = k) artists"
      by (cases "filter (\<lambda>a. normalize L a = k) artists") auto
    then show ?thesis by (simp add: rev_filter)
  qed
  show ?thesis
    using find_owner_first_credit[OF make_selection_fields(1,2)[OF assms(2)], of authors]
      find_owner_first_credit[OF make_selection_fields(1,2)[OF assms(3)], of authors]
    by (simp add: same split: option.splits)
qed

subsection \<open>No lookup fails\<close>

lemma fetch_artist_popularity_dom: "dom (fetch_artist_popularity sp artists) = set artists"
proof -
  have "dom (foldl (\<lambda>d name. d(name \<mapsto> f name)) m artists) = dom m \<union> set artists"
    for f :: "str \<Rightarrow> int option" and m
    by (induction artists arbitrary: m) auto
  then show ?thesis
    by (simp add: fetch_artist_popularity_def Let_def)
qed

lemma popularity_values_total:
  assumes "set as \<subseteq> dom ap"
  shows "\<exists>vs. popularity_values ap as = Inr vs"
  using assms by (induction as) (auto simp: dict_get_def)

lemma make_to_extract_total:
  assumes "set as \<subseteq> dom ap"
  shows "\<exists>te. make_to_extract ap ps as d = Inr te"
  using assms by (induction as arbitrary: d) (auto simp: dict_get_def split: prod.splits)

lemma find_owner_total:
  assumes "\<forall>k. artist_preference sel k \<noteq> None \<longrightarrow> artist_name_map sel k \<noteq> None"
  shows "\<exists>owner. find_owner L sel authors = Inr owner"
  using assms by (induction authors) (auto simp: Let_def dict_get_def)

lemma examine_track_total:
  assumes "\<forall>k. artist_preference sel k \<noteq> None \<longrightarrow> artist_name_map sel k \<noteq> None"
    and "a \<in> dom (artist_to_count st)" and "a \<in> dom (to_extract sel)"
  shows "\<exists>r. examine_track L sp sel a t st rej = Inr r"
proof -
  from find_owner_total[OF assms(1)] obtain owner where
    "find_owner L sel (track sp t) = Inr owner"
    by blast
  with assms(2,3) show ?thesis
    by (auto simp: examine_track_def Let_def dict_get_def)
qed

lemma scan_tracks_total:
  assumes "\<forall>k. artist_preference sel k \<noteq> None \<longrightarrow> artist_name_map sel k \<noteq> None"
    and "a \<in> dom (artist_to_count st)" and "a \<in> dom (to_extract sel)"
  shows "\<exists>r. scan_tracks L sp sel a ts st rej = Inr r"
  using assms(2)
proof (induction ts arbitrary: st rej)
  case Nil
  then show ?case by simp
next
  case (Cons t ts)
  from examine_track_total[OF assms(1) Cons.prems assms(3)] obtain stop st1 rej1 where
    ex: "examine_track L sp sel a t st rej = Inr (stop, st1, rej1)"
    by (metis prod_cases3)
  then have "a \<in> dom (artist_to_count st1)"
    using Cons.prems by (simp add: examine_track_dom)
  from Cons.IH[OF this] ex show ?case by auto
qed

lemma process_artists_total:
  assumes "\<forall>k. artist_preference sel k \<noteq> None \<longrightarrow> artist_name_map sel k \<noteq> None"
    and "set as \<subseteq> dom (artist_to_count st)" and "set as \<subseteq> dom (to_extract sel)"
  shows "\<exists>st'. process_artists L sp sel debug as st = Inr st'"
  using assms(2,3)
proof (induction as arbitrary: st)
  case Nil
  then show ?case by simp
next
  case (Cons a as)
  from Cons.prems have a: "a \<in> dom (artist_to_count st)" "a \<in> dom (to_extract sel)"
    by auto
  from scan_tracks_total[OF assms(1) a] obtain st1 rej where
    scan: "scan_tracks L sp sel a (fetch_artist_top_tracks L sp a) st [] = Inr (st1, rej)"
    by fastforce
  have dom1: "dom (artist_to_count st1) = dom (artist_to_count st)"
    by (rule scan_tracks_rule[OF scan,
          where P = "\<lambda>s r. dom (artist_to_count s) = dom (artist_to_count st)"
            and Q = "\<lambda>s r. dom (artist_to_count s) = dom (artist_to_count st)"])
       (simp_all add: examine_track_dom)
  with a(1) obtain c where "artist_to_count st1 a = Some c"
    by blast
  with scan obtain st2 where
    pa: "process_artist L sp sel debug a st = Inr (st2, rej)"
    and "artist_to_count st2 = artist_to_count st1"
    by (auto simp: process_artist_def Let_def dict_get_def)
  with dom1 Cons.prems have "set as \<subseteq> dom (artist_to_count st2)" "set as \<subseteq> dom (to_extract sel)"
    by auto
  from Cons.IH[OF this] pa show ?case by simp
qed

text \<open>
  The function raises only when the computation of the thresholds does: no dictionary
  lookup of the program can fail.
\<close>

lemma select_tracks_raises_only_from_percentile:
  "\<exists>values. popularity_values (fetch_artist_popularity sp artists) artists = Inr values
     \<and> (case get_percentile_thresholds L values of
          Inl e \<Rightarrow> select_tracks_by_percentile_logic L sp artists debug = Inl e
        | Inr ps \<Rightarrow> \<exists>r. select_tracks_by_percentile_logic L sp artists debug = Inr r)"
proof -
  let ?ap = "fetch_artist_popularity sp artists"
  have sub: "set artists \<subseteq> dom ?ap"
    by (simp add: fetch_artist_popularity_dom)
  from popularity_values_total[OF sub] obtain vals where
    vs: "popularity_values ?ap artists = Inr vals"
    by blast
  show ?thesis
  proof (cases "get_percentile_thresholds L vals")
    case (Inl e)
    with vs show ?thesis
      by (simp add: select_tracks_by_percentile_logic_def select_tracks_locals_def
          make_selection_def Let_def)
  next
    case (Inr ps)
    from make_to_extract_total[OF sub] obtain te where
      te: "make_to_extract ?ap ps artists Map.empty = Inr te"
      by blast
    define sel where
      "sel = \<lparr>artist_preference = make_artist_preference L artists,
              artist_name_map = make_artist_name_map L artists,
              artist_popularity = ?ap, to_extract = te\<rparr>"
    have ms: "make_selection L sp artists = Inr sel"
      using vs Inr te by (simp add: make_selection_def Let_def sel_def)
    have maps: "\<forall>k. artist_preference sel k \<noteq> None \<longrightarrow> artist_name_map sel k \<noteq> None"
      using make_artist_preference_dom[of L artists]
      by (simp add: sel_def make_artist_name_map_last)
    have "set artists \<subseteq> dom (artist_to_count (initial_allocation artists))"
      by (auto simp: initial_allocation_fields)
    moreover have "set artists \<subseteq> dom (to_extract sel)"
      using make_selection_fields(4)[OF ms] by simp
    ultimately obtain st where
      "process_artists L sp sel debug artists (initial_allocation artists) = Inr st"
      using process_artists_total[OF maps] by blast
    with ms vs Inr show ?thesis
      by (simp add: select_tracks_by_percentile_logic_def select_tracks_locals_def)
  qed
qed

subsection \<open>Two artists in either order\<close>

lemma find_owner_swap:
  assumes "normalize L a \<noteq> normalize L b"
    and "select_tracks_locals L sp [a, b] debug = Inr (sel, st)"
    and "select_tracks_locals L sp [b, a] debug = Inr (sel', st')"
  shows "find_owner L sel' authors = find_owner L sel authors"
proof -
  from assms(1) have "distinct (map (normalize L) [a, b])" by simp
  moreover from assms(2) have "make_selection L sp [a, b] = Inr sel"
    by (simp add: select_tracks_locals_Inr)
  moreover from assms(3) have "make_selection L sp (rev [a, b]) = Inr sel'"
    by (simp add: select_tracks_locals_Inr)
  ultimately show ?thesis by (rule find_owner_rev_artists)
qed

subsection \<open>The linear method and the interpolated percentile\<close>

lemma div_mod_hundred:
  "real M / 100 - real (M div 100) = real (M mod 100) / 100"
proof -
  have "real M = real (100 * (M div 100) + M mod 100)"
    by simp
  also have "\<dots> = 100 * real (M div 100) + real (M mod 100)"
    by (simp only: of_nat_add of_nat_mult of_nat_numeral)
  finally show ?thesis
    by (simp add: field_simps)
qed

lemma rank_floor:
  assumes "0 \<le> q"
  shows "nat \<lfloor>real m * real_of_int q / 100\<rfloor> = (m * nat q) div 100"
    and "real m * real_of_int q / 100 - real ((m * nat q) div 100)
           = real ((m * nat q) mod 100) / 100"
proof -
  have eq: "real m * real_of_int q = real (m * nat q)"
    using assms by simp
  have "\<lfloor>real (m * nat q) / real (100::nat)\<rfloor> = int ((m * nat q) div 100)"
    by (rule floor_divide_of_nat_eq)
  then show "nat \<lfloor>real m * real_of_int q / 100\<rfloor> = (m * nat q) div 100"
    by (simp add: eq)
  show "real m * real_of_int q / 100 - real ((m * nat q) div 100)
           = real ((m * nat q) mod 100) / 100"
    unfolding eq by (rule div_mod_hundred)
qed

lemma linear_value_reference:
  assumes "0 \<le> q" and "q \<le> 100" and "xs \<noteq> []"
  shows "(let s = sort xs;
              n = length s;
              pos = (n - 1) * nat q;
              lo = pos div 100;
              hi = min (lo + 1) (n - 1);
              g = real (pos mod 100) / 100
          in real_of_int (s ! lo) + g * (real_of_int (s ! hi) - real_of_int (s ! lo)))
         = reference_percentile xs q"
proof -
  let ?n = "length xs"
  let ?pos = "(?n - 1) * nat q"
  let ?lo = "?pos div 100"
  from assms(3) have n: "0 < ?n" by simp
  have "?pos \<le> (?n - 1) * 100"
    using assms(1,2) by (intro mult_le_mono2) simp
  then have "?lo \<le> ((?n - 1) * 100) div 100"
    by (rule div_le_mono)
  then have lo: "?lo \<le> ?n - 1" by simp
  have ref: "reference_percentile xs q =
      (if ?lo + 1 < ?n
       then real_of_int (sort xs ! ?lo)
            + real (?pos mod 100) / 100
              * (real_of_int (sort xs ! (?lo + 1)) - real_of_int (sort xs ! ?lo))
       else real_of_int (sort xs ! ?lo))"
    unfolding reference_percentile_def Let_def length_sort
      rank_floor(1)[OF assms(1)] rank_floor(2)[OF assms(1)] ..
  show ?thesis
  proof (cases "?lo + 1 < ?n")
    case True
    then have "min (?lo + 1) (?n - 1) = ?lo + 1" by simp
    with True show ?thesis
      by (simp add: ref Let_def)
  next
    case False
    with lo have "?lo = ?n - 1" by linarith
    then have "min (?lo + 1) (?n - 1) = ?lo" by simp
    with False show ?thesis
      by (simp add: ref Let_def)
  qed
qed

lemma linear_percentile_reference:
  assumes "xs \<noteq> []"
  shows "linear_percentile xs [20, 40, 60, 80]
           = Inr [reference_percentile xs 20, reference_percentile xs 40,
                  reference_percentile xs 60, reference_percentile xs 80]"
  using linear_value_reference[of 20 xs] linear_value_reference[of 40 xs]
    linear_value_reference[of 60 xs] linear_value_reference[of 80 xs] assms
  by (simp add: linear_percentile_def)

subsection \<open>The empty lineup\<close>

lemma select_tracks_empty:
  "select_tracks_by_percentile_logic L sp [] debug =
     (case get_percentile_thresholds L [] of
        Inl e \<Rightarrow> Inl e
      | Inr ps \<Rightarrow> Inr ([], Map.empty, Map.empty))"
  by (simp add: select_tracks_by_percentile_logic_def select_tracks_locals_def
      make_selection_def fetch_artist_popularity_def initial_allocation_def Let_def
      split: sum.splits)

subsection \<open>Evaluating the examples\<close>

lemmas sample_eval =
  select_tracks_by_percentile_logic_def select_tracks_locals_def make_selection_def
  fetch_artist_popularity_def fetch_artist_top_tracks_def make_artist_preference_def
  make_artist_name_map_def dict_of_def dict_get_def str_lit_def normalize_def
  sample_libs_def sample_NFD_def sample_category_def ascii_lower_def linear_percentile_def
  get_percentile_thresholds_def songs_count_def process_artist_def examine_track_def
  initial_allocation_def owner_reason_def Let_def

section \<open>The tier function\<close>

text \<open>
  C5. The tier is 1 exactly for a score below \<open>p20\<close>, 2 exactly for a score not below
  \<open>p20\<close> and below \<open>p40\<close>, and so on down the chain, 5 when no comparison holds; an absent
  score counts as 0; the tier lies between 1 and 5; with the cut points in ascending
  order a score equal to a cut point gets the tier above it.
\<close>

theorem songs_count_tiers:
  fixes p :: "int option" and p20 p40 p60 p80 :: real
  defines "s \<equiv> real_of_int (case p of None \<Rightarrow> 0 | Some v \<Rightarrow> v)"
  shows "(songs_count p p20 p40 p60 p80 = 1 \<longleftrightarrow> s < p20)
       \<and> (songs_count p p20 p40 p60 p80 = 2 \<longleftrightarrow> \<not> s < p20 \<and> s < p40)
       \<and> (songs_count p p20 p40 p60 p80 = 3 \<longleftrightarrow> \<not> s < p20 \<and> \<not> s < p40 \<and> s < p60)
       \<and> (songs_count p p20 p40 p60 p80 = 4 \<longleftrightarrow>
            \<not> s < p20 \<and> \<not> s < p40 \<and> \<not> s < p60 \<and> s < p80)
       \<and> (songs_count p p20 p40 p60 p80 = 5 \<longleftrightarrow>
            \<not> s < p20 \<and> \<not> s < p40 \<and> \<not> s < p60 \<and> \<not> s < p80)
       \<and> songs_count None p20 p40 p60 p80 = songs_count (Some 0) p20 p40 p60 p80
       \<and> 1 \<le> songs_count p p20 p40 p60 p80 \<and> songs_count p p20 p40 p60 p80 \<le> 5
       \<and> (p20 \<le> p40 \<and> p40 \<le> p60 \<and> p60 \<le> p80 \<longrightarrow>
            (s = p20 \<longrightarrow> 2 \<le> songs_count p p20 p40 p60 p80)
          \<and> (s = p40 \<longrightarrow> 3 \<le> songs_count p p20 p40 p60 p80)
          \<and> (s = p60 \<longrightarrow> 4 \<le> songs_count p p20 p40 p60 p80)
          \<and> (s = p80 \<longrightarrow> songs_count p p20 p40 p60 p80 = 5))"
  unfolding s_def songs_count_def Let_def by (cases p) auto

theorem songs_count_tiers_witness:
  "real_of_int (case Some 28 of None \<Rightarrow> 0 | Some v \<Rightarrow> v) = 28
   \<and> (28::real) \<le> 46 \<and> (46::real) \<le> 64 \<and> (64::real) \<le> 82
   \<and> 2 \<le> songs_count (Some 28) 28 46 64 82"
  using songs_count_tiers [of "Some 28" 28 46 64 82] by simp

section \<open>The thresholds\<close>

text \<open>
  C6. The thresholds are what \<^verbatim>\<open>numpy.percentile\<close> returns for the percentages 20, 40,
  60 and 80, in this order, and nothing else. Whenever that call computes its default
  (linear) method, as \<open>linear_percentile\<close> states it in exact arithmetic, the four
  thresholds of a non-empty list of scores are its interpolated percentiles over the
  sorted data. They are a function of the scores: equal lists give equal cut points.
  The rounding of the float arithmetic inside numpy is not part of the model.
\<close>

theorem thresholds_are_interpolated_percentiles:
  "(get_percentile_thresholds L xs = Inr (a, b, c, d)
      \<longleftrightarrow> np_percentile L xs [20, 40, 60, 80] = Inr [a, b, c, d])
   \<and> (np_percentile L xs [20, 40, 60, 80] = linear_percentile xs [20, 40, 60, 80]
        \<and> xs \<noteq> [] \<longrightarrow>
       get_percentile_thresholds L xs
         = Inr (reference_percentile xs 20, reference_percentile xs 40,
                reference_percentile xs 60, reference_percentile xs 80))"
proof (intro conjI impI)
  show "get_percentile_thresholds L xs = Inr (a, b, c, d)
      \<longleftrightarrow> np_percentile L xs [20, 40, 60, 80] = Inr [a, b, c, d]"
    by (auto simp: get_percentile_thresholds_def split: sum.splits list.splits)
next
  assume "np_percentile L xs [20, 40, 60, 80] = linear_percentile xs [20, 40, 60, 80]
        \<and> xs \<noteq> []"
  then show "get_percentile_thresholds L xs
         = Inr (reference_percentile xs 20, reference_percentile xs 40,
                reference_percentile xs 60, reference_percentile xs 80)"
    by (simp add: get_percentile_thresholds_def linear_percentile_reference)
qed

text \<open>
  The scores 10, 20, ..., 100 of the specification have the cut points 28, 46, 64 and 82,
  in any order of the scores.
\<close>

theorem thresholds_are_interpolated_percentiles_witness:
  "np_percentile sample_libs [10, 20, 30, 40, 50, 60, 70, 80, 90, 100] [20, 40, 60, 80]
     = linear_percentile [10, 20, 30, 40, 50, 60, 70, 80, 90, 100] [20, 40, 60, 80]
   \<and> [10, 20, 30, 40, 50, 60, 70, 80, 90, 100] \<noteq> ([] :: int list)
   \<and> get_percentile_thresholds sample_libs [10, 20, 30, 40, 50, 60, 70, 80, 90, 100]
       = Inr (28, 46, 64, 82)
   \<and> reference_percentile [10, 20, 30, 40, 50, 60, 70, 80, 90, 100] 20 = 28
   \<and> reference_percentile [10, 20, 30, 40, 50, 60, 70, 80, 90, 100] 40 = 46
   \<and> reference_percentile [10, 20, 30, 40, 50, 60, 70, 80, 90, 100] 60 = 64
   \<and> reference_percentile [10, 20, 30, 40, 50, 60, 70, 80, 90, 100] 80 = 82
   \<and> get_percentile_thresholds sample_libs [100, 30, 90, 10, 60, 20, 80, 50, 40, 70]
       = Inr (28, 46, 64, 82)"
proof -
  let ?xs = "[10, 20, 30, 40, 50, 60, 70, 80, 90, 100] :: int list"
  have lib: "np_percentile sample_libs ?xs [20, 40, 60, 80]
      = linear_percentile ?xs [20, 40, 60, 80]"
    by (simp add: sample_libs_def)
  have ne: "?xs \<noteq> []" by simp
  have ev: "get_percentile_thresholds sample_libs ?xs = Inr (28, 46, 64, 82)"
    "get_percentile_thresholds sample_libs [100, 30, 90, 10, 60, 20, 80, 50, 40, 70]
       = Inr (28, 46, 64, 82)"
    by (simp_all add: get_percentile_thresholds_def sample_libs_def linear_percentile_def
        Let_def)
  from thresholds_are_interpolated_percentiles[of sample_libs ?xs 28 46 64 82] lib ne ev(1)
  have "reference_percentile ?xs 20 = 28" "reference_percentile ?xs 40 = 46"
    "reference_percentile ?xs 60 = 64" "reference_percentile ?xs 80 = 82"
    by simp_all
  with lib ne ev show ?thesis by simp
qed

section \<open>The allocation\<close>

text \<open>
  C1. The final track list has no repeated identifier: for every artist list, every
  selection (so every quota assignment) and every catalog, a pass over the artists that
  ends leaves a list of distinct tracks, and so is the list the function returns.
\<close>

theorem no_duplicate_tracks:
  "(process_artists L sp sel debug artists (initial_allocation artists) = Inr st
      \<longrightarrow> distinct (all_tracks st))
   \<and> (select_tracks_by_percentile_logic L sp artists debug = Inr (tracks, ap, te)
      \<longrightarrow> distinct tracks)"
proof (intro conjI impI)
  assume "process_artists L sp sel debug artists (initial_allocation artists) = Inr st"
  then show "distinct (all_tracks st)"
    using process_artists_distinct by (simp add: initial_allocation_fields)
next
  assume "select_tracks_by_percentile_logic L sp artists debug = Inr (tracks, ap, te)"
  then obtain sel' st' where
    "process_artists L sp sel' debug artists (initial_allocation artists) = Inr st'"
    and "tracks = all_tracks st'"
    by (auto simp: select_tracks_Inr select_tracks_locals_Inr)
  then show "distinct tracks"
    using process_artists_distinct by (simp add: initial_allocation_fields)
qed

text \<open>
  The lineup \<open>A\<close>, \<open>B\<close> on the catalog \<open>duo_sp\<close>: the pass ends with \<open>t1\<close>, \<open>t2\<close>,
  \<open>t3\<close>.
\<close>

theorem no_duplicate_tracks_witness:
  "\<exists>sel st ap te.
     make_selection sample_libs duo_sp [str_lit ''A'', str_lit ''B''] = Inr sel
   \<and> process_artists sample_libs duo_sp sel False [str_lit ''A'', str_lit ''B'']
       (initial_allocation [str_lit ''A'', str_lit ''B'']) = Inr st
   \<and> select_tracks_by_percentile_logic sample_libs duo_sp [str_lit ''A'', str_lit ''B''] False
       = Inr ([str_lit ''t1'', str_lit ''t2'', str_lit ''t3''], ap, te)
   \<and> all_tracks st = [str_lit ''t1'', str_lit ''t2'', str_lit ''t3'']
   \<and> distinct (all_tracks st)
   \<and> distinct [str_lit ''t1'', str_lit ''t2'', str_lit ''t3'']"
proof -
  have "\<exists>sel st. select_tracks_locals sample_libs duo_sp [str_lit ''A'', str_lit ''B''] False
          = Inr (sel, st) \<and> all_tracks st = [str_lit ''t1'', str_lit ''t2'', str_lit ''t3'']"
    by (simp add: sample_eval duo_sp_def)
  then obtain sel st where
    loc: "select_tracks_locals sample_libs duo_sp [str_lit ''A'', str_lit ''B''] False
            = Inr (sel, st)"
    and tr: "all_tracks st = [str_lit ''t1'', str_lit ''t2'', str_lit ''t3'']"
    by blast
  from loc have
    ms: "make_selection sample_libs duo_sp [str_lit ''A'', str_lit ''B''] = Inr sel"
    and pa: "process_artists sample_libs duo_sp sel False [str_lit ''A'', str_lit ''B'']
               (initial_allocation [str_lit ''A'', str_lit ''B'']) = Inr st"
    by (simp_all add: select_tracks_locals_Inr)
  from loc tr have
    top: "select_tracks_by_percentile_logic sample_libs duo_sp [str_lit ''A'', str_lit ''B'']
            False
          = Inr ([str_lit ''t1'', str_lit ''t2'', str_lit ''t3''], artist_popularity sel,
                 to_extract sel)"
    by (simp add: select_tracks_Inr)
  from no_duplicate_tracks[of sample_libs duo_sp sel False "[str_lit ''A'', str_lit ''B'']" st
      "[str_lit ''t1'', str_lit ''t2'', str_lit ''t3'']" "artist_popularity sel"
      "to_extract sel"] pa top
  have "distinct (all_tracks st)"
    and "distinct [str_lit ''t1'', str_lit ''t2'', str_lit ''t3'']"
    by blast+
  with ms pa top tr show ?thesis by blast
qed

text \<open>
  C2. When the function returns, every artist \<open>A\<close> of the list has a count and a quota,
  the count is at most the quota, and the count is the number of tracks of the final
  list whose owner is \<open>A\<close>; every track of the final list has exactly one owner among
  the artists of the list.
\<close>

theorem quota_and_single_owner:
  assumes "select_tracks_locals L sp artists debug = Inr (sel, st)"
  shows "(\<forall>A \<in> set artists. \<exists>c n.
            artist_to_count st A = Some c \<and> to_extract sel A = Some n \<and> c \<le> n
          \<and> c = int (length (filter (\<lambda>t. find_owner L sel (track sp t) = Inr (Some A))
                  (all_tracks st))))
       \<and> (\<forall>t \<in> set (all_tracks st).
            \<exists>!A. A \<in> set artists \<and> find_owner L sel (track sp t) = Inr (Some A))"
proof -
  from assms have ms: "make_selection L sp artists = Inr sel"
    and pa: "process_artists L sp sel debug artists (initial_allocation artists) = Inr st"
    by (simp_all add: select_tracks_locals_Inr)
  note te = make_selection_fields(4,5)[OF ms]
  have dom_count: "dom (artist_to_count st) = set artists"
    using process_artists_dom[OF pa]
    by (auto simp: dom_def initial_allocation_fields split: if_splits)
  have quota: "\<forall>a c n. artist_to_count st a = Some c \<longrightarrow> to_extract sel a = Some n \<longrightarrow> c \<le> n"
    by (rule process_artists_quota[OF pa])
       (use te(2) in \<open>fastforce simp: initial_allocation_fields split: if_splits\<close>)
  have counts: "\<forall>a c. artist_to_count st a = Some c \<longrightarrow>
      c = int (length (filter (\<lambda>t. find_owner L sel (track sp t) = Inr (Some a))
            (all_tracks st)))"
    by (rule process_artists_counts[OF pa])
       (auto simp: initial_allocation_fields split: if_splits)
  have owned: "\<forall>t \<in> set (all_tracks st).
      \<exists>a \<in> set artists. find_owner L sel (track sp t) = Inr (Some a)"
    by (rule process_artists_owned[OF pa]) (simp_all add: initial_allocation_fields)
  show ?thesis
  proof (intro conjI ballI)
    fix A assume "A \<in> set artists"
    with dom_count te(1) have "A \<in> dom (artist_to_count st)" "A \<in> dom (to_extract sel)"
      by simp_all
    then obtain c n where
      "artist_to_count st A = Some c" "to_extract sel A = Some n"
      by blast
    with quota counts show "\<exists>c n.
        artist_to_count st A = Some c \<and> to_extract sel A = Some n \<and> c \<le> n
      \<and> c = int (length (filter (\<lambda>t. find_owner L sel (track sp t) = Inr (Some A))
              (all_tracks st)))"
      by blast
  next
    fix t assume "t \<in> set (all_tracks st)"
    with owned show "\<exists>!A. A \<in> set artists \<and> find_owner L sel (track sp t) = Inr (Some A)"
      by auto
  qed
qed

text \<open>
  On \<open>duo_sp\<close> the artist \<open>A\<close> takes one track of a quota of one, \<open>B\<close> two of a quota
  of five.
\<close>

theorem quota_and_single_owner_witness:
  "\<exists>sel st.
     select_tracks_locals sample_libs duo_sp [str_lit ''A'', str_lit ''B''] False = Inr (sel, st)
   \<and> all_tracks st = [str_lit ''t1'', str_lit ''t2'', str_lit ''t3'']
   \<and> artist_to_count st (str_lit ''A'') = Some 1 \<and> to_extract sel (str_lit ''A'') = Some 1
   \<and> artist_to_count st (str_lit ''B'') = Some 2 \<and> to_extract sel (str_lit ''B'') = Some 5
   \<and> (\<exists>c n. artist_to_count st (str_lit ''B'') = Some c \<and> to_extract sel (str_lit ''B'') = Some n
         \<and> c \<le> n
         \<and> c = int (length (filter
                 (\<lambda>t. find_owner sample_libs sel (track duo_sp t) = Inr (Some (str_lit ''B'')))
                 (all_tracks st))))
   \<and> (\<exists>!A. A \<in> set [str_lit ''A'', str_lit ''B'']
         \<and> find_owner sample_libs sel (track duo_sp (str_lit ''t3'')) = Inr (Some A))"
proof -
  have "\<exists>sel st. select_tracks_locals sample_libs duo_sp [str_lit ''A'', str_lit ''B''] False
          = Inr (sel, st)
        \<and> all_tracks st = [str_lit ''t1'', str_lit ''t2'', str_lit ''t3'']
        \<and> artist_to_count st (str_lit ''A'') = Some 1 \<and> to_extract sel (str_lit ''A'') = Some 1
        \<and> artist_to_count st (str_lit ''B'') = Some 2 \<and> to_extract sel (str_lit ''B'') = Some 5"
    by (simp add: sample_eval duo_sp_def)
  then obtain sel st where
    loc: "select_tracks_locals sample_libs duo_sp [str_lit ''A'', str_lit ''B''] False
            = Inr (sel, st)"
    and vals: "all_tracks st = [str_lit ''t1'', str_lit ''t2'', str_lit ''t3'']"
      "artist_to_count st (str_lit ''A'') = Some 1" "to_extract sel (str_lit ''A'') = Some 1"
      "artist_to_count st (str_lit ''B'') = Some 2" "to_extract sel (str_lit ''B'') = Some 5"
    by blast
  have "str_lit ''B'' \<in> set [str_lit ''A'', str_lit ''B'']"
    and "str_lit ''t3'' \<in> set (all_tracks st)"
    by (simp_all add: vals)
  with quota_and_single_owner[OF loc] loc vals show ?thesis
    by blast
qed

text \<open>
  C3. With the dictionaries built from the artist list, the owner of a track is decided
  by the first credited name whose normalized form is the normalized form of an artist
  of the list, and there is no owner when no credited name is; the owner is then an
  artist of the list with that normalized form (the last such in the list). A candidate
  that is not yet claimed changes the allocation for the artist \<open>A\<close> only when its owner
  is \<open>A\<close>, so only when the two normalized names agree. A track none of whose credited
  names is recognised is rejected, with the reason \<^verbatim>\<open>owner is None\<close> and no change, for
  whichever artist meets it, and it is not in the list the function returns.
\<close>

theorem owner_is_first_recognised_credit:
  assumes "make_selection L sp artists = Inr sel"
  shows "find_owner L sel authors =
           Inr (case List.find (\<lambda>n. normalize L n \<in> normalize L ` set artists) authors of
                  None \<Rightarrow> None
                | Some n \<Rightarrow> Some (last (filter (\<lambda>a. normalize L a = normalize L n) artists)))
       \<and> (\<forall>n. List.find (\<lambda>n. normalize L n \<in> normalize L ` set artists) authors = Some n \<longrightarrow>
             last (filter (\<lambda>a. normalize L a = normalize L n) artists) \<in> set artists
           \<and> normalize L (last (filter (\<lambda>a. normalize L a = normalize L n) artists))
               = normalize L n)
       \<and> (t \<notin> seen_tracks st \<and> examine_track L sp sel A t st rej = Inr (stop, st', rej')
            \<and> st' \<noteq> st \<longrightarrow>
             (\<exists>owner. find_owner L sel (track sp t) = Inr (Some owner) \<and> owner = A
                \<and> normalize L owner = normalize L A))
       \<and> ((\<forall>n \<in> set (track sp t). normalize L n \<notin> normalize L ` set artists)
            \<and> t \<notin> seen_tracks st \<longrightarrow>
             examine_track L sp sel A t st rej =
               Inr (False, st,
                    rej @ [(t, str_lit ''owner is None'', Some (track sp t), None)]))
       \<and> ((\<forall>n \<in> set (track sp t). normalize L n \<notin> normalize L ` set artists)
            \<and> select_tracks_by_percentile_logic L sp artists debug = Inr (tracks, ap, te) \<longrightarrow>
             t \<notin> set tracks)"
proof -
  note fields = make_selection_fields(1,2)[OF assms]
  note owner = find_owner_first_credit[OF fields]
  have none: "find_owner L sel (track sp t) = Inr None"
    if "\<forall>n \<in> set (track sp t). normalize L n \<notin> normalize L ` set artists"
  proof -
    from that have
      "List.find (\<lambda>n. normalize L n \<in> normalize L ` set artists) (track sp t) = None"
      by (simp add: find_None_iff)
    then show ?thesis by (simp add: owner)
  qed
  have a: "\<forall>n. List.find (\<lambda>n. normalize L n \<in> normalize L ` set artists) authors = Some n \<longrightarrow>
             last (filter (\<lambda>a. normalize L a = normalize L n) artists) \<in> set artists
           \<and> normalize L (last (filter (\<lambda>a. normalize L a = normalize L n) artists))
               = normalize L n"
  proof (intro allI impI)
    fix n
    assume "List.find (\<lambda>n. normalize L n \<in> normalize L ` set artists) authors = Some n"
    then have "normalize L n \<in> normalize L ` set artists"
      by (auto simp: find_Some_iff)
    then show "last (filter (\<lambda>a. normalize L a = normalize L n) artists) \<in> set artists
           \<and> normalize L (last (filter (\<lambda>a. normalize L a = normalize L n) artists))
               = normalize L n"
      by (rule last_filter_in)
  qed
  have b: "t \<notin> seen_tracks st \<and> examine_track L sp sel A t st rej = Inr (stop, st', rej')
            \<and> st' \<noteq> st \<longrightarrow>
             (\<exists>owner. find_owner L sel (track sp t) = Inr (Some owner) \<and> owner = A
                \<and> normalize L owner = normalize L A)"
    by (auto elim!: examine_track_cases)
  have c1: "(\<forall>n \<in> set (track sp t). normalize L n \<notin> normalize L ` set artists)
            \<and> t \<notin> seen_tracks st \<longrightarrow>
             examine_track L sp sel A t st rej =
               Inr (False, st,
                    rej @ [(t, str_lit ''owner is None'', Some (track sp t), None)])"
    using none by (simp add: examine_track_def Let_def owner_reason_def str_lit_def)
  have c2: "(\<forall>n \<in> set (track sp t). normalize L n \<notin> normalize L ` set artists)
            \<and> select_tracks_by_percentile_logic L sp artists debug = Inr (tracks, ap, te) \<longrightarrow>
             t \<notin> set tracks"
  proof (intro impI, elim conjE)
    assume unknown: "\<forall>n \<in> set (track sp t). normalize L n \<notin> normalize L ` set artists"
      and "select_tracks_by_percentile_logic L sp artists debug = Inr (tracks, ap, te)"
    then obtain sel' st' where ms: "make_selection L sp artists = Inr sel'"
      and pa: "process_artists L sp sel' debug artists (initial_allocation artists) = Inr st'"
      and tr: "tracks = all_tracks st'"
      by (auto simp: select_tracks_Inr select_tracks_locals_Inr)
    from ms assms have "sel' = sel" by simp
    have "\<forall>t \<in> set (all_tracks st').
        \<exists>a \<in> set artists. find_owner L sel' (track sp t) = Inr (Some a)"
      by (rule process_artists_owned[OF pa]) (simp_all add: initial_allocation_fields)
    with none[OF unknown] \<open>sel' = sel\<close> show "t \<notin> set tracks"
      by (auto simp: tr)
  qed
  from owner a b c1 c2 show ?thesis by blast
qed

text \<open>
  On \<open>duo_sp\<close>: \<open>t1\<close> is credited to \<open>A\<close> first, so \<open>A\<close> owns it and takes it; \<open>t0\<close> is
  credited to \<open>X\<close>, who is not in the lineup, so \<open>B\<close> rejects it and it is not returned.
\<close>

theorem owner_is_first_recognised_credit_witness:
  "\<exists>sel st' ap te.
      make_selection sample_libs duo_sp [str_lit ''A'', str_lit ''B''] = Inr sel
    \<and> track duo_sp (str_lit ''t1'') = [str_lit ''A'', str_lit ''B'']
    \<and> List.find (\<lambda>n. normalize sample_libs n
             \<in> normalize sample_libs ` set [str_lit ''A'', str_lit ''B''])
          (track duo_sp (str_lit ''t1'')) = Some (str_lit ''A'')
    \<and> find_owner sample_libs sel (track duo_sp (str_lit ''t1'')) = Inr (Some (str_lit ''A''))
    \<and> str_lit ''t1'' \<notin> seen_tracks (initial_allocation [str_lit ''A'', str_lit ''B''])
    \<and> examine_track sample_libs duo_sp sel (str_lit ''A'') (str_lit ''t1'')
          (initial_allocation [str_lit ''A'', str_lit ''B'']) [] = Inr (True, st', [])
    \<and> st' \<noteq> initial_allocation [str_lit ''A'', str_lit ''B'']
    \<and> normalize sample_libs (str_lit ''A'') = str_lit ''a''
    \<and> track duo_sp (str_lit ''t0'') = [str_lit ''X'']
    \<and> normalize sample_libs (str_lit ''X'')
          \<notin> normalize sample_libs ` set [str_lit ''A'', str_lit ''B'']
    \<and> examine_track sample_libs duo_sp sel (str_lit ''B'') (str_lit ''t0'')
          (initial_allocation [str_lit ''A'', str_lit ''B'']) []
        = Inr (False, initial_allocation [str_lit ''A'', str_lit ''B''],
               [(str_lit ''t0'', str_lit ''owner is None'', Some [str_lit ''X''], None)])
    \<and> select_tracks_by_percentile_logic sample_libs duo_sp [str_lit ''A'', str_lit ''B''] False
        = Inr ([str_lit ''t1'', str_lit ''t2'', str_lit ''t3''], ap, te)
    \<and> str_lit ''t0'' \<notin> set [str_lit ''t1'', str_lit ''t2'', str_lit ''t3'']"
proof -
  let ?artists = "[str_lit ''A'', str_lit ''B'']"
  let ?init = "initial_allocation ?artists"
  define sel where
    "sel = (case make_selection sample_libs duo_sp ?artists of Inr s \<Rightarrow> s)"
  have ms: "make_selection sample_libs duo_sp ?artists = Inr sel"
    by (simp add: sel_def sample_eval duo_sp_def)
  have credits: "track duo_sp (str_lit ''t1'') = [str_lit ''A'', str_lit ''B'']"
    "track duo_sp (str_lit ''t0'') = [str_lit ''X'']"
    by (simp_all add: duo_sp_def str_lit_def)
  have first: "List.find (\<lambda>n. normalize sample_libs n \<in> normalize sample_libs ` set ?artists)
      (track duo_sp (str_lit ''t1'')) = Some (str_lit ''A'')"
    by (simp add: credits)
  have unknown': "normalize sample_libs (str_lit ''X'')
      \<notin> normalize sample_libs ` set ?artists"
    by (simp add: sample_eval)
  then have unknown: "\<forall>n \<in> set (track duo_sp (str_lit ''t0'')).
      normalize sample_libs n \<notin> normalize sample_libs ` set ?artists"
    unfolding credits by simp
  have unseen: "str_lit ''t1'' \<notin> seen_tracks ?init" "str_lit ''t0'' \<notin> seen_tracks ?init"
    by (simp_all add: initial_allocation_def)
  have "\<exists>st'. examine_track sample_libs duo_sp sel (str_lit ''A'') (str_lit ''t1'') ?init []
          = Inr (True, st', []) \<and> all_tracks st' = [str_lit ''t1'']"
    by (simp add: sel_def sample_eval duo_sp_def)
  then obtain st' where
    ex: "examine_track sample_libs duo_sp sel (str_lit ''A'') (str_lit ''t1'') ?init []
          = Inr (True, st', [])"
    and tr: "all_tracks st' = [str_lit ''t1'']"
    by blast
  have changed: "st' \<noteq> ?init"
    using tr by (auto simp: initial_allocation_def)
  have top: "select_tracks_by_percentile_logic sample_libs duo_sp ?artists False
      = Inr ([str_lit ''t1'', str_lit ''t2'', str_lit ''t3''], artist_popularity sel,
             to_extract sel)"
    by (simp add: sel_def sample_eval duo_sp_def)
  note thm1 = owner_is_first_recognised_credit[OF ms,
      of "track duo_sp (str_lit ''t1'')" "str_lit ''t1''" ?init "str_lit ''A''" "[]" True st' "[]"]
  note thm0 = owner_is_first_recognised_credit[OF ms,
      of "[]" "str_lit ''t0''" ?init "str_lit ''B''" "[]" False ?init "[]" False
         "[str_lit ''t1'', str_lit ''t2'', str_lit ''t3'']" "artist_popularity sel"
         "to_extract sel"]
  from thm1 first have
    owner: "find_owner sample_libs sel (track duo_sp (str_lit ''t1'')) = Inr (Some (str_lit ''A''))"
    by (simp add: sample_eval)
  from thm0 unknown unseen(2) have
    rejected: "examine_track sample_libs duo_sp sel (str_lit ''B'') (str_lit ''t0'') ?init []
      = Inr (False, ?init,
             [(str_lit ''t0'', str_lit ''owner is None'', Some [str_lit ''X''], None)])"
    by (simp add: credits)
  from thm0 unknown top have
    absent: "str_lit ''t0'' \<notin> set [str_lit ''t1'', str_lit ''t2'', str_lit ''t3'']"
    by blast
  have norm: "normalize sample_libs (str_lit ''A'') = str_lit ''a''"
    by (simp add: sample_eval)
  from ms credits first owner unseen(1) ex changed norm unknown' rejected top absent
  show ?thesis by blast
qed

text \<open>
  C4. Let the track \<open>t\<close> be in the final list after the artists \<open>earlier\<close>. Whatever
  artists are processed next, and however far a later artist \<open>a\<close> has come in the scan
  of its candidates, meeting \<open>t\<close> appends the rejection
  \<^verbatim>\<open>already assigned to previous artist\<close> and nothing else: the loop goes on, and the
  allocation (claimed set, final list, counts) is the same.
\<close>

theorem claimed_track_is_never_reassigned:
  assumes "process_artists L sp sel debug earlier (initial_allocation artists) = Inr st0"
    and "t \<in> set (all_tracks st0)"
    and "process_artists L sp sel debug between st0 = Inr st1"
    and "scan_tracks L sp sel a candidates st1 [] = Inr (st, rej)"
  shows "examine_track L sp sel a t st rej =
           Inr (False, st,
                rej @ [(t, str_lit ''already assigned to previous artist'', None, None)])"
proof -
  have "seen_tracks st0 = set (all_tracks st0)"
    using process_artists_distinct[OF assms(1)] by (simp add: initial_allocation_fields)
  with assms(2) have "t \<in> seen_tracks st0" by simp
  moreover have "seen_tracks st0 \<subseteq> seen_tracks st1"
    by (rule process_artists_rule[OF assms(3),
          where P = "\<lambda>seen tracks counts. seen_tracks st0 \<subseteq> seen"])
       (auto elim!: examine_track_cases)
  moreover have "seen_tracks st1 \<subseteq> seen_tracks st"
    by (rule scan_tracks_grows[OF assms(4)])
  ultimately have "t \<in> seen_tracks st" by blast
  then show ?thesis by (simp add: examine_track_def)
qed

text \<open>
  On \<open>duo_sp\<close>: \<open>A\<close> has taken \<open>t1\<close>, which is the first candidate of \<open>B\<close>.
\<close>

theorem claimed_track_is_never_reassigned_witness:
  "\<exists>sel st0.
      make_selection sample_libs duo_sp [str_lit ''A'', str_lit ''B''] = Inr sel
    \<and> process_artists sample_libs duo_sp sel False [str_lit ''A'']
          (initial_allocation [str_lit ''A'', str_lit ''B'']) = Inr st0
    \<and> str_lit ''t1'' \<in> set (all_tracks st0)
    \<and> process_artists sample_libs duo_sp sel False [] st0 = Inr st0
    \<and> scan_tracks sample_libs duo_sp sel (str_lit ''B'') [] st0 [] = Inr (st0, [])
    \<and> hd (fetch_artist_top_tracks sample_libs duo_sp (str_lit ''B'')) = str_lit ''t1''
    \<and> examine_track sample_libs duo_sp sel (str_lit ''B'') (str_lit ''t1'') st0 []
        = Inr (False, st0,
               [(str_lit ''t1'', str_lit ''already assigned to previous artist'', None, None)])"
proof -
  let ?artists = "[str_lit ''A'', str_lit ''B'']"
  define sel where
    "sel = (case make_selection sample_libs duo_sp ?artists of Inr s \<Rightarrow> s)"
  have ms: "make_selection sample_libs duo_sp ?artists = Inr sel"
    by (simp add: sel_def sample_eval duo_sp_def)
  have "\<exists>st0. process_artists sample_libs duo_sp sel False [str_lit ''A'']
            (initial_allocation ?artists) = Inr st0
          \<and> all_tracks st0 = [str_lit ''t1'']"
    by (simp add: sel_def sample_eval duo_sp_def)
  then obtain st0 where
    pa: "process_artists sample_libs duo_sp sel False [str_lit ''A'']
           (initial_allocation ?artists) = Inr st0"
    and tr: "all_tracks st0 = [str_lit ''t1'']"
    by blast
  have placed: "str_lit ''t1'' \<in> set (all_tracks st0)"
    by (simp add: tr)
  have between: "process_artists sample_libs duo_sp sel False [] st0 = Inr st0"
    and scan: "scan_tracks sample_libs duo_sp sel (str_lit ''B'') [] st0 [] = Inr (st0, [])"
    by simp_all
  have first: "hd (fetch_artist_top_tracks sample_libs duo_sp (str_lit ''B'')) = str_lit ''t1''"
    by (simp add: sample_eval duo_sp_def)
  have rejected: "examine_track sample_libs duo_sp sel (str_lit ''B'') (str_lit ''t1'') st0 []
      = Inr (False, st0,
             [(str_lit ''t1'', str_lit ''already assigned to previous artist'', None, None)])"
    using claimed_track_is_never_reassigned[OF pa placed between scan] by simp
  from ms pa placed between scan first rejected show ?thesis by blast
qed

section \<open>The empty lineup\<close>

text \<open>
  C7. For the empty artist list the function computes the thresholds of the empty list of
  scores first (\<open>select_tracks_empty\<close>), and \<^verbatim>\<open>numpy.percentile\<close> raises
  \<^verbatim>\<open>IndexError\<close> on empty data: the call raises, it does not return empty results.
\<close>

theorem empty_lineup_raises:
  "get_percentile_thresholds sample_libs [] = Inl IndexError
   \<and> select_tracks_by_percentile_logic sample_libs sp [] debug = Inl IndexError"
  by (simp add: select_tracks_empty get_percentile_thresholds_def sample_libs_def
      linear_percentile_def)

section \<open>Normalization\<close>

text \<open>
  C8. \<open>normalize\<close> is the lowercasing of what the canonical decomposition of the text
  leaves once every code point of category \<^verbatim>\<open>Mn\<close> is removed. The example of the
  specification, U+00C4 r t U+00EF s t, space, N U+00E4 m e against \<^verbatim>\<open>artist name\<close>, holds
  for every library that decomposes the three accented letters into the letter and U+0308,
  leaves the plain text alone, puts U+0308 and none of the letters in \<^verbatim>\<open>Mn\<close>, and
  lowercases \<^verbatim>\<open>Artist Name\<close> to \<^verbatim>\<open>artist name\<close>. The function has no error branch:
  it is defined on every string.
\<close>

theorem normalize_strips_marks:
  "normalize L text =
     str_lower L (filter (\<lambda>c. unicodedata_category L c \<noteq> ''Mn'')
       (unicodedata_normalize_NFD L text))
   \<and> (unicodedata_normalize_NFD L
         [0xC4, 0x72, 0x74, 0xEF, 0x73, 0x74, 0x20, 0x4E, 0xE4, 0x6D, 0x65]
         = [0x41, 0x308, 0x72, 0x74, 0x69, 0x308, 0x73, 0x74, 0x20, 0x4E, 0x61, 0x308, 0x6D, 0x65]
       \<and> unicodedata_normalize_NFD L (str_lit ''artist name'') = str_lit ''artist name''
       \<and> unicodedata_category L 0x308 = ''Mn''
       \<and> (\<forall>c \<in> set (str_lit ''Artist Name'' @ str_lit ''artist name'').
             unicodedata_category L c \<noteq> ''Mn'')
       \<and> str_lower L (str_lit ''Artist Name'') = str_lit ''artist name''
       \<and> str_lower L (str_lit ''artist name'') = str_lit ''artist name''
       \<longrightarrow> normalize L [0xC4, 0x72, 0x74, 0xEF, 0x73, 0x74, 0x20, 0x4E, 0xE4, 0x6D, 0x65]
             = normalize L (str_lit ''artist name''))"
proof (intro conjI impI)
  have join: "concat [[c]. c \<leftarrow> xs, P c] = filter P xs" for xs :: str and P
    by (induction xs) auto
  show "normalize L text =
     str_lower L (filter (\<lambda>c. unicodedata_category L c \<noteq> ''Mn'')
       (unicodedata_normalize_NFD L text))"
    by (simp only: normalize_def join)
  assume facts: "unicodedata_normalize_NFD L
         [0xC4, 0x72, 0x74, 0xEF, 0x73, 0x74, 0x20, 0x4E, 0xE4, 0x6D, 0x65]
         = [0x41, 0x308, 0x72, 0x74, 0x69, 0x308, 0x73, 0x74, 0x20, 0x4E, 0x61, 0x308, 0x6D, 0x65]
       \<and> unicodedata_normalize_NFD L (str_lit ''artist name'') = str_lit ''artist name''
       \<and> unicodedata_category L 0x308 = ''Mn''
       \<and> (\<forall>c \<in> set (str_lit ''Artist Name'' @ str_lit ''artist name'').
             unicodedata_category L c \<noteq> ''Mn'')
       \<and> str_lower L (str_lit ''Artist Name'') = str_lit ''artist name''
       \<and> str_lower L (str_lit ''artist name'') = str_lit ''artist name''"
  then have "normalize L [0xC4, 0x72, 0x74, 0xEF, 0x73, 0x74, 0x20, 0x4E, 0xE4, 0x6D, 0x65]
      = str_lit ''artist name''"
    by (simp add: normalize_def str_lit_def)
  moreover from facts have "normalize L (str_lit ''artist name'') = str_lit ''artist name''"
    by (simp add: normalize_def str_lit_def)
  ultimately show "normalize L [0xC4, 0x72, 0x74, 0xEF, 0x73, 0x74, 0x20, 0x4E, 0xE4, 0x6D, 0x65]
      = normalize L (str_lit ''artist name'')"
    by simp
qed

text \<open>
  The excerpt of the Unicode data in \<open>sample_libs\<close> satisfies these facts.
\<close>

theorem normalize_strips_marks_witness:
  "unicodedata_normalize_NFD sample_libs
         [0xC4, 0x72, 0x74, 0xEF, 0x73, 0x74, 0x20, 0x4E, 0xE4, 0x6D, 0x65]
         = [0x41, 0x308, 0x72, 0x74, 0x69, 0x308, 0x73, 0x74, 0x20, 0x4E, 0x61, 0x308, 0x6D, 0x65]
   \<and> unicodedata_normalize_NFD sample_libs (str_lit ''artist name'') = str_lit ''artist name''
   \<and> unicodedata_category sample_libs 0x308 = ''Mn''
   \<and> list_all (\<lambda>c. unicodedata_category sample_libs c \<noteq> ''Mn'')
        (str_lit ''Artist Name'' @ str_lit ''artist name'')
   \<and> str_lower sample_libs (str_lit ''Artist Name'') = str_lit ''artist name''
   \<and> str_lower sample_libs (str_lit ''artist name'') = str_lit ''artist name''
   \<and> normalize sample_libs [0xC4, 0x72, 0x74, 0xEF, 0x73, 0x74, 0x20, 0x4E, 0xE4, 0x6D, 0x65]
       = normalize sample_libs (str_lit ''artist name'')
   \<and> normalize sample_libs (str_lit ''artist name'') = str_lit ''artist name''"
proof -
  have facts: "unicodedata_normalize_NFD sample_libs
         [0xC4, 0x72, 0x74, 0xEF, 0x73, 0x74, 0x20, 0x4E, 0xE4, 0x6D, 0x65]
         = [0x41, 0x308, 0x72, 0x74, 0x69, 0x308, 0x73, 0x74, 0x20, 0x4E, 0x61, 0x308, 0x6D, 0x65]"
    "unicodedata_normalize_NFD sample_libs (str_lit ''artist name'') = str_lit ''artist name''"
    "unicodedata_category sample_libs 0x308 = ''Mn''"
    "\<forall>c \<in> set (str_lit ''Artist Name'' @ str_lit ''artist name'').
        unicodedata_category sample_libs c \<noteq> ''Mn''"
    "str_lower sample_libs (str_lit ''Artist Name'') = str_lit ''artist name''"
    "str_lower sample_libs (str_lit ''artist name'') = str_lit ''artist name''"
    by (simp_all add: sample_libs_def sample_NFD_def sample_category_def ascii_lower_def
        str_lit_def)
  from facts(4) have all: "list_all (\<lambda>c. unicodedata_category sample_libs c \<noteq> ''Mn'')
        (str_lit ''Artist Name'' @ str_lit ''artist name'')"
    by (simp only: list_all_iff)
  have plain: "normalize sample_libs (str_lit ''artist name'') = str_lit ''artist name''"
    by (simp add: sample_eval)
  from normalize_strips_marks[of sample_libs] facts all plain show ?thesis
    by blast
qed

section \<open>The order of the artists\<close>

text \<open>
  C9, amended. Reversing the list changes the artist a shared track goes to only between
  two entries with the same normalized name: for \<open>ABBA\<close> and \<open>Abba\<close> of \<open>twin_sp\<close>
  \<^verbatim>\<open>artist_name_map\<close> keeps the entry listed last, and that entry is the owner and takes
  the track, in either order. For two artists with different normalized names the owner
  of every track is the same in both orders, and a track returned by either run has that
  one owner, \<open>a\<close> or \<open>b\<close>, in both.
\<close>

theorem owner_of_shared_track_and_order:
  "(\<exists>L sp a b t debug sel st sel' st'.
      a \<noteq> b \<and> normalize L a = normalize L b
    \<and> t \<in> set (fetch_artist_top_tracks L sp a) \<and> t \<in> set (fetch_artist_top_tracks L sp b)
    \<and> a \<in> set (track sp t) \<and> b \<in> set (track sp t)
    \<and> select_tracks_locals L sp [a, b] debug = Inr (sel, st)
    \<and> all_tracks st = [t]
    \<and> find_owner L sel (track sp t) = Inr (Some b)
    \<and> artist_to_count st a = Some 0 \<and> artist_to_count st b = Some 1
    \<and> select_tracks_locals L sp [b, a] debug = Inr (sel', st')
    \<and> all_tracks st' = [t]
    \<and> find_owner L sel' (track sp t) = Inr (Some a)
    \<and> artist_to_count st' a = Some 1 \<and> artist_to_count st' b = Some 0)
   \<and> (normalize L a \<noteq> normalize L b
        \<and> select_tracks_locals L sp [a, b] debug = Inr (sel, st)
        \<and> select_tracks_locals L sp [b, a] debug = Inr (sel', st') \<longrightarrow>
       find_owner L sel' authors = find_owner L sel authors
     \<and> (t \<in> set (all_tracks st) \<or> t \<in> set (all_tracks st') \<longrightarrow>
          (\<exists>x. (x = a \<or> x = b)
             \<and> find_owner L sel (track sp t) = Inr (Some x)
             \<and> find_owner L sel' (track sp t) = Inr (Some x))))"
proof (intro conjI impI)
  let ?a = "str_lit ''ABBA''" and ?b = "str_lit ''Abba''" and ?t = "str_lit ''t1''"
  have "?a \<noteq> ?b" "normalize sample_libs ?a = normalize sample_libs ?b"
    by (simp_all add: sample_eval)
  moreover have "?t \<in> set (fetch_artist_top_tracks sample_libs twin_sp ?a)"
    "?t \<in> set (fetch_artist_top_tracks sample_libs twin_sp ?b)"
    "?a \<in> set (track twin_sp ?t)" "?b \<in> set (track twin_sp ?t)"
    by (simp_all add: sample_eval twin_sp_def)
  moreover have "\<exists>sel st. select_tracks_locals sample_libs twin_sp [?a, ?b] False = Inr (sel, st)
      \<and> all_tracks st = [?t]
      \<and> find_owner sample_libs sel (track twin_sp ?t) = Inr (Some ?b)
      \<and> artist_to_count st ?a = Some 0 \<and> artist_to_count st ?b = Some 1"
    by (simp add: sample_eval twin_sp_def)
  moreover have "\<exists>sel' st'. select_tracks_locals sample_libs twin_sp [?b, ?a] False = Inr (sel', st')
      \<and> all_tracks st' = [?t]
      \<and> find_owner sample_libs sel' (track twin_sp ?t) = Inr (Some ?a)
      \<and> artist_to_count st' ?a = Some 1 \<and> artist_to_count st' ?b = Some 0"
    by (simp add: sample_eval twin_sp_def)
  ultimately show "\<exists>L sp a b t debug sel st sel' st'.
      a \<noteq> b \<and> normalize L a = normalize L b
    \<and> t \<in> set (fetch_artist_top_tracks L sp a) \<and> t \<in> set (fetch_artist_top_tracks L sp b)
    \<and> a \<in> set (track sp t) \<and> b \<in> set (track sp t)
    \<and> select_tracks_locals L sp [a, b] debug = Inr (sel, st)
    \<and> all_tracks st = [t]
    \<and> find_owner L sel (track sp t) = Inr (Some b)
    \<and> artist_to_count st a = Some 0 \<and> artist_to_count st b = Some 1
    \<and> select_tracks_locals L sp [b, a] debug = Inr (sel', st')
    \<and> all_tracks st' = [t]
    \<and> find_owner L sel' (track sp t) = Inr (Some a)
    \<and> artist_to_count st' a = Some 1 \<and> artist_to_count st' b = Some 0"
    by blast
next
  assume h: "normalize L a \<noteq> normalize L b
        \<and> select_tracks_locals L sp [a, b] debug = Inr (sel, st)
        \<and> select_tracks_locals L sp [b, a] debug = Inr (sel', st')"
  then show "find_owner L sel' authors = find_owner L sel authors"
    using find_owner_swap by blast
next
  assume h: "normalize L a \<noteq> normalize L b
        \<and> select_tracks_locals L sp [a, b] debug = Inr (sel, st)
        \<and> select_tracks_locals L sp [b, a] debug = Inr (sel', st')"
    and t: "t \<in> set (all_tracks st) \<or> t \<in> set (all_tracks st')"
  from h have same: "find_owner L sel' (track sp t) = find_owner L sel (track sp t)"
    using find_owner_swap by blast
  from h have pa: "process_artists L sp sel debug [a, b] (initial_allocation [a, b]) = Inr st"
    and pa': "process_artists L sp sel' debug [b, a] (initial_allocation [b, a]) = Inr st'"
    by (simp_all add: select_tracks_locals_Inr)
  have "\<forall>t \<in> set (all_tracks st).
      \<exists>x \<in> set [a, b]. find_owner L sel (track sp t) = Inr (Some x)"
    by (rule process_artists_owned[OF pa]) (simp_all add: initial_allocation_fields)
  moreover have "\<forall>t \<in> set (all_tracks st').
      \<exists>x \<in> set [a, b]. find_owner L sel' (track sp t) = Inr (Some x)"
    by (rule process_artists_owned[OF pa']) (auto simp: initial_allocation_fields)
  ultimately show "\<exists>x. (x = a \<or> x = b)
             \<and> find_owner L sel (track sp t) = Inr (Some x)
             \<and> find_owner L sel' (track sp t) = Inr (Some x)"
    using t same by (metis list.set_intros(1) set_ConsD empty_iff empty_set)
qed

text \<open>
  On \<open>duo_sp\<close> the track \<open>t1\<close> has the same owner for the lineups \<open>A\<close>, \<open>B\<close> and
  \<open>B\<close>, \<open>A\<close>.
\<close>

theorem owner_of_shared_track_and_order_witness:
  "\<exists>sel st sel' st'.
      normalize sample_libs (str_lit ''A'') \<noteq> normalize sample_libs (str_lit ''B'')
    \<and> select_tracks_locals sample_libs duo_sp [str_lit ''A'', str_lit ''B''] False = Inr (sel, st)
    \<and> select_tracks_locals sample_libs duo_sp [str_lit ''B'', str_lit ''A''] False
        = Inr (sel', st')
    \<and> str_lit ''t1'' \<in> set (all_tracks st)
    \<and> find_owner sample_libs sel' (track duo_sp (str_lit ''t1''))
        = find_owner sample_libs sel (track duo_sp (str_lit ''t1''))
    \<and> (\<exists>x. (x = str_lit ''A'' \<or> x = str_lit ''B'')
          \<and> find_owner sample_libs sel (track duo_sp (str_lit ''t1'')) = Inr (Some x)
          \<and> find_owner sample_libs sel' (track duo_sp (str_lit ''t1'')) = Inr (Some x))"
proof -
  have n: "normalize sample_libs (str_lit ''A'') \<noteq> normalize sample_libs (str_lit ''B'')"
    by (simp add: sample_eval)
  have "\<exists>sel st. select_tracks_locals sample_libs duo_sp [str_lit ''A'', str_lit ''B''] False
          = Inr (sel, st) \<and> all_tracks st = [str_lit ''t1'', str_lit ''t2'', str_lit ''t3'']"
    by (simp add: sample_eval duo_sp_def)
  then obtain sel st where
    r: "select_tracks_locals sample_libs duo_sp [str_lit ''A'', str_lit ''B''] False
          = Inr (sel, st)"
    and tr: "all_tracks st = [str_lit ''t1'', str_lit ''t2'', str_lit ''t3'']"
    by blast
  have "\<exists>sel' st'. select_tracks_locals sample_libs duo_sp [str_lit ''B'', str_lit ''A''] False
          = Inr (sel', st')"
    by (simp add: sample_eval duo_sp_def)
  then obtain sel' st' where
    r': "select_tracks_locals sample_libs duo_sp [str_lit ''B'', str_lit ''A''] False
          = Inr (sel', st')"
    by blast
  have t: "str_lit ''t1'' \<in> set (all_tracks st)"
    by (simp add: tr)
  from owner_of_shared_track_and_order[of sample_libs "str_lit ''A''" "str_lit ''B''" duo_sp
      False sel st sel' st' "track duo_sp (str_lit ''t1'')" "str_lit ''t1''"] n r r' t
  show ?thesis by blast
qed

text \<open>
  C9 as stated fails for two artists with different normalized names: no input gives a
  track one owner for the lineup \<open>a\<close>, \<open>b\<close> and another for \<open>b\<close>, \<open>a\<close>. On \<open>duo_sp\<close>
  the track \<open>t1\<close> is a top track of \<open>A\<close> and of \<open>B\<close> and is credited to \<open>A\<close> and
  \<open>B\<close>; \<open>A\<close> is credited first, so \<open>A\<close> takes it in both orders: listed first, \<open>B\<close>
  rejects it with \<^verbatim>\<open>owner is A\<close>.
\<close>

theorem owner_flip_counterexample:
  "\<not> (\<exists>L sp a b t debug sel st sel' st' x y.
        normalize L a \<noteq> normalize L b
      \<and> select_tracks_locals L sp [a, b] debug = Inr (sel, st)
      \<and> select_tracks_locals L sp [b, a] debug = Inr (sel', st')
      \<and> find_owner L sel (track sp t) = Inr (Some x)
      \<and> find_owner L sel' (track sp t) = Inr (Some y)
      \<and> x \<noteq> y)
   \<and> (\<exists>sel st sel' st'.
        str_lit ''t1'' \<in> set (fetch_artist_top_tracks sample_libs duo_sp (str_lit ''A''))
      \<and> str_lit ''t1'' \<in> set (fetch_artist_top_tracks sample_libs duo_sp (str_lit ''B''))
      \<and> track duo_sp (str_lit ''t1'') = [str_lit ''A'', str_lit ''B'']
      \<and> select_tracks_locals sample_libs duo_sp [str_lit ''A'', str_lit ''B''] False
          = Inr (sel, st)
      \<and> all_tracks st = [str_lit ''t1'', str_lit ''t2'', str_lit ''t3'']
      \<and> find_owner sample_libs sel (track duo_sp (str_lit ''t1'')) = Inr (Some (str_lit ''A''))
      \<and> artist_to_count st (str_lit ''A'') = Some 1
      \<and> artist_to_count st (str_lit ''B'') = Some 2
      \<and> select_tracks_locals sample_libs duo_sp [str_lit ''B'', str_lit ''A''] False
          = Inr (sel', st')
      \<and> all_tracks st' = [str_lit ''t2'', str_lit ''t3'', str_lit ''t1'']
      \<and> find_owner sample_libs sel' (track duo_sp (str_lit ''t1'')) = Inr (Some (str_lit ''A''))
      \<and> artist_to_count st' (str_lit ''A'') = Some 1
      \<and> artist_to_count st' (str_lit ''B'') = Some 2)"
proof (intro conjI notI)
  assume "\<exists>L sp a b t debug sel st sel' st' x y.
        normalize L a \<noteq> normalize L b
      \<and> select_tracks_locals L sp [a, b] debug = Inr (sel, st)
      \<and> select_tracks_locals L sp [b, a] debug = Inr (sel', st')
      \<and> find_owner L sel (track sp t) = Inr (Some x)
      \<and> find_owner L sel' (track sp t) = Inr (Some y)
      \<and> x \<noteq> y"
  then obtain L sp a b t debug sel st sel' st' x y where
    h: "normalize L a \<noteq> normalize L b"
      "select_tracks_locals L sp [a, b] debug = Inr (sel, st)"
      "select_tracks_locals L sp [b, a] debug = Inr (sel', st')"
    and o: "find_owner L sel (track sp t) = Inr (Some x)"
      "find_owner L sel' (track sp t) = Inr (Some y)" "x \<noteq> y"
    by blast
  from find_owner_swap[OF h, of "track sp t"] o show False by simp
next
  have "str_lit ''t1'' \<in> set (fetch_artist_top_tracks sample_libs duo_sp (str_lit ''A''))"
    "str_lit ''t1'' \<in> set (fetch_artist_top_tracks sample_libs duo_sp (str_lit ''B''))"
    "track duo_sp (str_lit ''t1'') = [str_lit ''A'', str_lit ''B'']"
    by (simp_all add: sample_eval duo_sp_def)
  moreover have "\<exists>sel st.
      select_tracks_locals sample_libs duo_sp [str_lit ''A'', str_lit ''B''] False = Inr (sel, st)
      \<and> all_tracks st = [str_lit ''t1'', str_lit ''t2'', str_lit ''t3'']
      \<and> find_owner sample_libs sel (track duo_sp (str_lit ''t1'')) = Inr (Some (str_lit ''A''))
      \<and> artist_to_count st (str_lit ''A'') = Some 1
      \<and> artist_to_count st (str_lit ''B'') = Some 2"
    by (simp add: sample_eval duo_sp_def)
  moreover have "\<exists>sel' st'.
      select_tracks_locals sample_libs duo_sp [str_lit ''B'', str_lit ''A''] False
          = Inr (sel', st')
      \<and> all_tracks st' = [str_lit ''t2'', str_lit ''t3'', str_lit ''t1'']
      \<and> find_owner sample_libs sel' (track duo_sp (str_lit ''t1'')) = Inr (Some (str_lit ''A''))
      \<and> artist_to_count st' (str_lit ''A'') = Some 1
      \<and> artist_to_count st' (str_lit ''B'') = Some 2"
    by (simp add: sample_eval duo_sp_def)
  ultimately show "\<exists>sel st sel' st'.
        str_lit ''t1'' \<in> set (fetch_artist_top_tracks sample_libs duo_sp (str_lit ''A''))
      \<and> str_lit ''t1'' \<in> set (fetch_artist_top_tracks sample_libs duo_sp (str_lit ''B''))
      \<and> track duo_sp (str_lit ''t1'') = [str_lit ''A'', str_lit ''B'']
      \<and> select_tracks_locals sample_libs duo_sp [str_lit ''A'', str_lit ''B''] False
          = Inr (sel, st)
      \<and> all_tracks st = [str_lit ''t1'', str_lit ''t2'', str_lit ''t3'']
      \<and> find_owner sample_libs sel (track duo_sp (str_lit ''t1'')) = Inr (Some (str_lit ''A''))
      \<and> artist_to_count st (str_lit ''A'') = Some 1
      \<and> artist_to_count st (str_lit ''B'') = Some 2
      \<and> select_tracks_locals sample_libs duo_sp [str_lit ''B'', str_lit ''A''] False
          = Inr (sel', st')
      \<and> all_tracks st' = [str_lit ''t2'', str_lit ''t3'', str_lit ''t1'']
      \<and> find_owner sample_libs sel' (track duo_sp (str_lit ''t1'')) = Inr (Some (str_lit ''A''))
      \<and> artist_to_count st' (str_lit ''A'') = Some 1
      \<and> artist_to_count st' (str_lit ''B'') = Some 2"
    by blast
qed

section \<open>The rejection for a reached limit\<close>

text \<open>
  C10, amended. When no artist is named twice in the list, the scan of an artist starts
  with the count 0 and a quota of at least 1, and none of the rejections of that scan has
  the reason \<^verbatim>\<open>limit reached for artist\<close>.
\<close>

theorem limit_reached_needs_repeated_artist:
  assumes "distinct artists"
    and "make_selection L sp artists = Inr sel"
    and "artists = earlier @ a # later"
    and "process_artists L sp sel debug earlier (initial_allocation artists) = Inr st"
    and "process_artist L sp sel debug a st = Inr (st', rejected_tracks)"
  shows "(\<exists>n. to_extract sel a = Some n \<and> 1 \<le> n \<and> artist_to_count st a = Some 0)
       \<and> (\<forall>r \<in> set rejected_tracks. fst (snd r) \<noteq> str_lit ''limit reached for artist'')"
proof -
  from assms(1,3) have a: "a \<in> set artists" "a \<notin> set earlier"
    by auto
  from a(1) make_selection_fields(4,5)[OF assms(2)] obtain n where
    n: "to_extract sel a = Some n" "1 \<le> n"
    by (metis domD)
  have count: "artist_to_count st a = Some 0"
    using process_artists_other_count[OF assms(4) a(2)] a(1)
    by (simp add: initial_allocation_fields)
  from assms(5) obtain st1 where
    scan: "scan_tracks L sp sel a (fetch_artist_top_tracks L sp a) st [] = Inr (st1, rejected_tracks)"
    by (rule process_artist_scan)
  have "\<forall>r \<in> set rejected_tracks. fst (snd r) \<noteq> str_lit ''limit reached for artist''"
    by (rule scan_tracks_below_quota[OF scan count n(1)]) (use n(2) in simp_all)
  with n count show ?thesis by blast
qed

text \<open>
  On \<open>duo_sp\<close> the scan of \<open>B\<close> rejects \<open>t1\<close> and \<open>t0\<close>, for other reasons.
\<close>

theorem limit_reached_needs_repeated_artist_witness:
  "\<exists>sel st st' rejected_tracks.
      distinct [str_lit ''A'', str_lit ''B'']
    \<and> make_selection sample_libs duo_sp [str_lit ''A'', str_lit ''B''] = Inr sel
    \<and> [str_lit ''A'', str_lit ''B''] = [str_lit ''A''] @ str_lit ''B'' # []
    \<and> process_artists sample_libs duo_sp sel False [str_lit ''A'']
          (initial_allocation [str_lit ''A'', str_lit ''B'']) = Inr st
    \<and> process_artist sample_libs duo_sp sel False (str_lit ''B'') st
        = Inr (st', rejected_tracks)
    \<and> map (fst \<circ> snd) rejected_tracks
        = [str_lit ''already assigned to previous artist'', str_lit ''owner is None'']
    \<and> to_extract sel (str_lit ''B'') = Some 5
    \<and> artist_to_count st (str_lit ''B'') = Some 0
    \<and> list_all (\<lambda>r. fst (snd r) \<noteq> str_lit ''limit reached for artist'') rejected_tracks"
proof -
  let ?artists = "[str_lit ''A'', str_lit ''B'']"
  define sel where
    "sel = (case make_selection sample_libs duo_sp ?artists of Inr s \<Rightarrow> s)"
  have ms: "make_selection sample_libs duo_sp ?artists = Inr sel"
    and quota: "to_extract sel (str_lit ''B'') = Some 5"
    by (simp_all add: sel_def sample_eval duo_sp_def)
  define st where
    "st = (case process_artists sample_libs duo_sp sel False [str_lit ''A'']
                 (initial_allocation ?artists) of Inr s \<Rightarrow> s)"
  have first: "process_artists sample_libs duo_sp sel False [str_lit ''A'']
      (initial_allocation ?artists) = Inr st"
    by (simp add: st_def sel_def sample_eval duo_sp_def)
  have "\<exists>st' rejected_tracks.
      process_artist sample_libs duo_sp sel False (str_lit ''B'') st
        = Inr (st', rejected_tracks)
    \<and> map (fst \<circ> snd) rejected_tracks
        = [str_lit ''already assigned to previous artist'', str_lit ''owner is None'']"
    by (simp add: st_def sel_def sample_eval duo_sp_def)
  then obtain st' rejected_tracks where
    second: "process_artist sample_libs duo_sp sel False (str_lit ''B'') st
        = Inr (st', rejected_tracks)"
    and reasons: "map (fst \<circ> snd) rejected_tracks
        = [str_lit ''already assigned to previous artist'', str_lit ''owner is None'']"
    by auto
  have d: "distinct ?artists" and split: "?artists = [str_lit ''A''] @ str_lit ''B'' # []"
    by (simp_all add: str_lit_def)
  from limit_reached_needs_repeated_artist[OF d ms split first second] quota
  have fresh: "artist_to_count st (str_lit ''B'') = Some 0"
    and none: "list_all (\<lambda>r. fst (snd r) \<noteq> str_lit ''limit reached for artist'')
      rejected_tracks"
    by (simp_all add: list_all_iff)
  from d ms split first second reasons quota fresh none show ?thesis
    by - (intro exI conjI, assumption+)
qed

text \<open>
  C10 as stated fails when an artist is named twice. On \<open>solo_sp\<close> with the lineup
  \<open>A\<close>, \<open>A\<close> the quota is 5: the first scan takes \<open>t1\<close> to \<open>t5\<close>; the second scan
  starts with the count 5, passes the five claimed tracks and rejects \<open>t6\<close> with
  \<^verbatim>\<open>limit reached for artist\<close>.
\<close>

theorem limit_reached_counterexample:
  "\<exists>sel st st' rejected_tracks.
      make_selection sample_libs solo_sp [str_lit ''A'', str_lit ''A''] = Inr sel
    \<and> to_extract sel (str_lit ''A'') = Some 5
    \<and> process_artists sample_libs solo_sp sel False [str_lit ''A'']
          (initial_allocation [str_lit ''A'', str_lit ''A'']) = Inr st
    \<and> artist_to_count st (str_lit ''A'') = Some 5
    \<and> process_artist sample_libs solo_sp sel False (str_lit ''A'') st
        = Inr (st', rejected_tracks)
    \<and> last rejected_tracks
        = (str_lit ''t6'', str_lit ''limit reached for artist'', Some [str_lit ''A''],
           Some (str_lit ''A''))
    \<and> select_tracks_by_percentile_logic sample_libs solo_sp [str_lit ''A'', str_lit ''A''] False
        = Inr ([str_lit ''t1'', str_lit ''t2'', str_lit ''t3'', str_lit ''t4'', str_lit ''t5''],
               artist_popularity sel, to_extract sel)"
proof -
  let ?artists = "[str_lit ''A'', str_lit ''A'']"
  define sel where
    "sel = (case make_selection sample_libs solo_sp ?artists of Inr s \<Rightarrow> s)"
  have ms: "make_selection sample_libs solo_sp ?artists = Inr sel"
    and quota: "to_extract sel (str_lit ''A'') = Some 5"
    by (simp_all add: sel_def sample_eval solo_sp_def)
  define st where
    "st = (case process_artists sample_libs solo_sp sel False [str_lit ''A'']
                 (initial_allocation ?artists) of Inr s \<Rightarrow> s)"
  have first: "process_artists sample_libs solo_sp sel False [str_lit ''A'']
      (initial_allocation ?artists) = Inr st"
    and count: "artist_to_count st (str_lit ''A'') = Some 5"
    by (simp_all add: st_def sel_def sample_eval solo_sp_def)
  have "\<exists>st' rejected_tracks.
      process_artist sample_libs solo_sp sel False (str_lit ''A'') st
        = Inr (st', rejected_tracks)
    \<and> last rejected_tracks
        = (str_lit ''t6'', str_lit ''limit reached for artist'', Some [str_lit ''A''],
           Some (str_lit ''A''))"
    by (simp add: st_def sel_def sample_eval solo_sp_def)
  moreover have "select_tracks_by_percentile_logic sample_libs solo_sp ?artists False
        = Inr ([str_lit ''t1'', str_lit ''t2'', str_lit ''t3'', str_lit ''t4'', str_lit ''t5''],
               artist_popularity sel, to_extract sel)"
    by (simp add: sel_def sample_eval solo_sp_def)
  ultimately show ?thesis
    using ms quota first count by blast
qed

end
